theory Spec2Isabelle
  imports Main "HOL-Library.Word" "HOL-Library.Multiset"
begin

unbundle bit_operations_syntax

section \<open>Machine types of the PE dumper\<close>

text \<open>
  The dumper is C. Its integer types are modelled with their widths: \<open>BYTE\<close> is 8 bits,
  \<open>WORD\<close> and \<open>USHORT\<close> and \<open>WCHAR\<close> are 16 bits, \<open>DWORD\<close> and \<open>unsigned int\<close> are 32
  bits, \<open>unsigned long\<close> and \<open>size_t\<close> are 64 bits (an LP64 host). Sums and differences
  on these types wrap around, as the word operations do.
\<close>

type_synonym BYTE = "8 word"
type_synonym USHORT = "16 word"
type_synonym DWORD = "32 word"
type_synonym ulong = "64 word"

section \<open>The image accessor\<close>

text \<open>
  Modelled from the spec: the physical read \<open>PRD\<close> of the image accessor, which is
  defined in another file of the dumper. The spec: \<open>read(offset, length)\<close> returns
  nothing if \<open>offset + length\<close> exceeds the buffer length or overflows, and otherwise
  the slice starting at \<open>offset\<close>. The first argument is the buffer length; a pointer
  into the image is its offset from the start of the buffer.
\<close>

definition PRD :: "nat \<Rightarrow> ulong \<Rightarrow> ulong \<Rightarrow> nat option" where
  "PRD total_len prd len =
     (if unat prd + unat len > total_len then None else Some (unat prd))"

section \<open>RVA resolution (\<open>RVA\<close>, pe.c lines 69 to 88)\<close>

text \<open>
  The section table is the array \<open>IMAGE_FIRST_SECTION(PE_nt_headers)\<close> of
  \<open>FileHeader.NumberOfSections\<close> section headers, here a list whose length is that
  number. Only the three fields that \<open>RVA\<close> reads are kept.
\<close>

record IMAGE_SECTION_HEADER =
  VirtualAddress :: DWORD
  SizeOfRawData :: DWORD
  PointerToRawData :: DWORD

text \<open>
  The loop \<open>for (i = NumberOfSections - 1; i >= 0; i--)\<close>. The counter \<open>n\<close> is \<open>i + 1\<close>:
  the sections with an index below \<open>n\<close> are still to be looked at. The physical read
  is the parameter \<open>prd\<close>; its result is a pointer, \<open>None\<close> for \<open>NULL\<close>.

  In the test, \<open>rva + len\<close> is an \<open>unsigned long\<close> sum and
  \<open>(DWORD)VirtualAddress + SizeOfRawData\<close> is a \<open>DWORD\<close> sum, widened for the comparison.
\<close>

fun RVA_scan ::
  "(ulong \<Rightarrow> ulong \<Rightarrow> 'p option) \<Rightarrow> IMAGE_SECTION_HEADER list \<Rightarrow> nat \<Rightarrow> ulong \<Rightarrow> ulong \<Rightarrow> 'p option"
where
  "RVA_scan prd sectHead 0 rva len = None"
| "RVA_scan prd sectHead (Suc i) rva len =
     (if ucast (VirtualAddress (sectHead ! i)) \<le> rva \<and>
         rva + len \<le> ucast (VirtualAddress (sectHead ! i) + SizeOfRawData (sectHead ! i))
      then prd (ucast (PointerToRawData (sectHead ! i)) + rva
                  - ucast (VirtualAddress (sectHead ! i))) len
      else RVA_scan prd sectHead i rva len)"

definition RVA ::
  "(ulong \<Rightarrow> ulong \<Rightarrow> 'p option) \<Rightarrow> IMAGE_SECTION_HEADER list \<Rightarrow> ulong \<Rightarrow> ulong \<Rightarrow> 'p option"
where
  "RVA prd sectHead rva len =
     (if rva = 0 then None else RVA_scan prd sectHead (length sectHead) rva len)"

text \<open>
  The specification's words, over the numbers themselves: a section matches when its
  virtual address is at most \<open>va\<close> and \<open>va + len\<close> is at most the section's virtual address
  plus its raw size; the file offset of a match is the raw offset plus \<open>va\<close> minus the
  virtual address. The sums here are sums of natural numbers and do not wrap.
\<close>

definition in_section :: "IMAGE_SECTION_HEADER \<Rightarrow> nat \<Rightarrow> nat \<Rightarrow> bool" where
  "in_section s va len =
     (unat (VirtualAddress s) \<le> va \<and>
      va + len \<le> unat (VirtualAddress s) + unat (SizeOfRawData s))"

definition file_offset :: "IMAGE_SECTION_HEADER \<Rightarrow> nat \<Rightarrow> nat" where
  "file_offset s va = unat (PointerToRawData s) + (va - unat (VirtualAddress s))"

text \<open>
  The two sums of the test fit their types: \<open>va + len\<close> an \<open>unsigned long\<close>, and for every
  section \<open>VirtualAddress + SizeOfRawData\<close> a \<open>DWORD\<close>.
\<close>

definition sums_fit :: "IMAGE_SECTION_HEADER list \<Rightarrow> ulong \<Rightarrow> ulong \<Rightarrow> bool" where
  "sums_fit sectHead va len =
     (unat va + unat len < 2 ^ 64 \<and>
      (\<forall>j < length sectHead.
         unat (VirtualAddress (sectHead ! j)) + unat (SizeOfRawData (sectHead ! j)) < 2 ^ 32))"

section \<open>Properties of RVA resolution\<close>

lemma RVA_test_in_section:
  fixes va len :: ulong
  assumes "unat va + unat len < 2 ^ 64"
    and "unat (VirtualAddress s) + unat (SizeOfRawData s) < 2 ^ 32"
  shows "(ucast (VirtualAddress s) \<le> va \<and>
          va + len \<le> ucast (VirtualAddress s + SizeOfRawData s))
         = in_section s (unat va) (unat len)"
proof -
  have "unat (va + len) = unat va + unat len"
    using assms(1) unat_add_lem [of va len] by simp
  moreover have "unat (VirtualAddress s + SizeOfRawData s)
      = unat (VirtualAddress s) + unat (SizeOfRawData s)"
    using assms(2) unat_add_lem [of "VirtualAddress s" "SizeOfRawData s"] by simp
  moreover have "unat (ucast w :: ulong) = unat w" for w :: DWORD
  proof -
    have "unat w < 2 ^ 32"
      using unsigned_less [of w] by simp
    then have "unat w < 2 ^ 64"
      by simp
    then show ?thesis
      by (simp add: unsigned_ucast_eq take_bit_nat_eq_self)
  qed
  ultimately show ?thesis
    by (simp add: in_section_def word_le_nat_alt)
qed

lemma RVA_file_offset:
  fixes va :: ulong
  assumes "unat (VirtualAddress s) \<le> unat va"
  shows "ucast (PointerToRawData s) + va - ucast (VirtualAddress s)
         = (of_nat (file_offset s (unat va)) :: ulong)"
  using assms by (simp add: file_offset_def of_nat_diff)


lemma RVA_scan_step:
  fixes va len :: ulong
  assumes "unat va + unat len < 2 ^ 64"
    and "unat (VirtualAddress (sectHead ! i)) + unat (SizeOfRawData (sectHead ! i)) < 2 ^ 32"
  shows "RVA_scan prd sectHead (Suc i) va len =
     (if in_section (sectHead ! i) (unat va) (unat len)
      then prd (of_nat (file_offset (sectHead ! i) (unat va))) len
      else RVA_scan prd sectHead i va len)"
proof (cases "in_section (sectHead ! i) (unat va) (unat len)")
  case True
  then have "unat (VirtualAddress (sectHead ! i)) \<le> unat va"
    by (simp add: in_section_def)
  then have "ucast (PointerToRawData (sectHead ! i)) + va - ucast (VirtualAddress (sectHead ! i))
      = (of_nat (file_offset (sectHead ! i) (unat va)) :: ulong)"
    by (rule RVA_file_offset)
  with True show ?thesis
    using RVA_test_in_section [OF assms] by (simp only: RVA_scan.simps if_True)
next
  case False
  then show ?thesis
    using RVA_test_in_section [OF assms] by (simp only: RVA_scan.simps if_False)
qed

lemma RVA_scan_none_in_section:
  fixes va len :: ulong
  assumes "sums_fit sectHead va len" and "n \<le> length sectHead"
    and "\<And>j. j < n \<Longrightarrow> \<not> in_section (sectHead ! j) (unat va) (unat len)"
  shows "RVA_scan prd sectHead n va len = None"
  using assms(2,3)
proof (induction n)
  case 0
  then show ?case by simp
next
  case (Suc n)
  have fit: "unat va + unat len < 2 ^ 64"
    "unat (VirtualAddress (sectHead ! n)) + unat (SizeOfRawData (sectHead ! n)) < 2 ^ 32"
    using assms(1) Suc.prems(1) by (simp_all add: sums_fit_def)
  have "\<not> in_section (sectHead ! n) (unat va) (unat len)"
    using Suc.prems(2) [of n] by simp
  moreover have "RVA_scan prd sectHead n va len = None"
    using Suc.prems by (intro Suc.IH) simp_all
  ultimately show ?case
    by (simp only: RVA_scan_step [OF fit] if_False)
qed

lemma RVA_scan_highest_in_section:
  fixes va len :: ulong
  assumes "sums_fit sectHead va len" and "n \<le> length sectHead"
    and "i < n" and "in_section (sectHead ! i) (unat va) (unat len)"
    and "\<And>j. i < j \<Longrightarrow> j < n \<Longrightarrow> \<not> in_section (sectHead ! j) (unat va) (unat len)"
  shows "RVA_scan prd sectHead n va len
           = prd (of_nat (file_offset (sectHead ! i) (unat va))) len"
  using assms(2,3,5)
proof (induction n)
  case 0
  then show ?case by simp
next
  case (Suc n)
  have fit: "unat va + unat len < 2 ^ 64"
    "unat (VirtualAddress (sectHead ! n)) + unat (SizeOfRawData (sectHead ! n)) < 2 ^ 32"
    using assms(1) Suc.prems(1) by (simp_all add: sums_fit_def)
  show ?case
  proof (cases "i = n")
    case True
    with assms(4) show ?thesis
      by (simp only: RVA_scan_step [OF fit] if_True)
  next
    case False
    with Suc.prems(2) have lt: "i < n" by simp
    have nm: "\<not> in_section (sectHead ! n) (unat va) (unat len)"
      using Suc.prems(3) [of n] lt by simp
    have "RVA_scan prd sectHead n va len
        = prd (of_nat (file_offset (sectHead ! i) (unat va))) len"
      using Suc.prems(1) Suc.prems(3) lt by (intro Suc.IH) simp_all
    with nm show ?thesis
      by (simp only: RVA_scan_step [OF fit] if_False)
  qed
qed

text \<open>
  Claim C1, as amended. Address zero resolves to nothing, always. When \<open>va + len\<close> fits an
  \<open>unsigned long\<close> and every section's \<open>VirtualAddress + SizeOfRawData\<close> fits a \<open>DWORD\<close>,
  the match is the one of the specification, over the numbers themselves: when no
  section matches the result is nothing; and when section \<open>i\<close> matches and no section of
  a higher index does, the result is the physical read of \<open>len\<close> bytes at the file
  offset of \<open>va\<close> in section \<open>i\<close>. So the scan runs from the highest index down and the
  first match decides.
\<close>

theorem RVA_resolves_highest_matching_section:
  "RVA prd sectHead 0 len = None \<and>
   (sums_fit sectHead va len \<longrightarrow>
     ((\<forall>j < length sectHead. \<not> in_section (sectHead ! j) (unat va) (unat len))
        \<longrightarrow> RVA prd sectHead va len = None) \<and>
     (\<forall>i < length sectHead.
        va \<noteq> 0 \<and> in_section (sectHead ! i) (unat va) (unat len) \<and>
        (\<forall>j < length sectHead. i < j \<longrightarrow> \<not> in_section (sectHead ! j) (unat va) (unat len))
        \<longrightarrow> RVA prd sectHead va len
            = prd (of_nat (file_offset (sectHead ! i) (unat va))) len))"
proof (intro conjI allI impI)
  show "RVA prd sectHead 0 len = None"
    by (simp add: RVA_def)
next
  assume "sums_fit sectHead va len"
    and "\<forall>j < length sectHead. \<not> in_section (sectHead ! j) (unat va) (unat len)"
  then have "RVA_scan prd sectHead (length sectHead) va len = None"
    by (intro RVA_scan_none_in_section) simp_all
  then show "RVA prd sectHead va len = None"
    by (simp add: RVA_def)
next
  fix i
  assume fit: "sums_fit sectHead va len" and i: "i < length sectHead"
    and h: "va \<noteq> 0 \<and> in_section (sectHead ! i) (unat va) (unat len) \<and>
      (\<forall>j < length sectHead. i < j \<longrightarrow> \<not> in_section (sectHead ! j) (unat va) (unat len))"
  then have "RVA_scan prd sectHead (length sectHead) va len
      = prd (of_nat (file_offset (sectHead ! i) (unat va))) len"
    by (intro RVA_scan_highest_in_section) simp_all
  with h show "RVA prd sectHead va len
      = prd (of_nat (file_offset (sectHead ! i) (unat va))) len"
    by (simp add: RVA_def)
qed

definition example_sections :: "IMAGE_SECTION_HEADER list" where
  "example_sections =
     [\<lparr>VirtualAddress = 0x1000, SizeOfRawData = 0x200, PointerToRawData = 0x400\<rparr>,
      \<lparr>VirtualAddress = 0x1000, SizeOfRawData = 0x100, PointerToRawData = 0x800\<rparr>]"

theorem RVA_resolves_highest_matching_section_witness:
  "RVA (PRD 4096) example_sections 0 4 = None \<and>
   RVA (PRD 4096) example_sections 0x3000 4 = None \<and>
   RVA (PRD 4096) example_sections 0x1010 4 = Some 0x810 \<and>
   RVA (PRD 4096) example_sections 0x1150 4 = Some 0x550"
proof -
  note spec = RVA_resolves_highest_matching_section [of "PRD 4096" example_sections 4]
  have len: "length example_sections = 2"
    by (simp add: example_sections_def)
  have fit: "sums_fit example_sections va 4" if "unat va < 0x10000" for va
    using that by (simp add: sums_fit_def len less_2_cases_iff) (simp add: example_sections_def)
  have none: "\<forall>j < length example_sections. \<not> in_section (example_sections ! j) (unat (0x3000 :: ulong)) (unat (4 :: ulong))"
    by (simp add: len less_2_cases_iff) (simp add: example_sections_def in_section_def)
  have hi: "(0x1010 :: ulong) \<noteq> 0 \<and> in_section (example_sections ! 1) (unat (0x1010 :: ulong)) (unat (4 :: ulong)) \<and>
      (\<forall>j < length example_sections. 1 < j \<longrightarrow> \<not> in_section (example_sections ! j) (unat (0x1010 :: ulong)) (unat (4 :: ulong)))"
    by (simp add: len less_2_cases_iff) (simp add: example_sections_def in_section_def)
  have lo: "(0x1150 :: ulong) \<noteq> 0 \<and> in_section (example_sections ! 0) (unat (0x1150 :: ulong)) (unat (4 :: ulong)) \<and>
      (\<forall>j < length example_sections. 0 < j \<longrightarrow> \<not> in_section (example_sections ! j) (unat (0x1150 :: ulong)) (unat (4 :: ulong)))"
    by (simp add: len less_2_cases_iff) (simp add: example_sections_def in_section_def)
  have "RVA (PRD 4096) example_sections 0 4 = None"
    using spec [of 0] by simp
  moreover have "RVA (PRD 4096) example_sections 0x3000 4 = None"
    using spec [of "0x3000", THEN conjunct2, rule_format, OF fit, THEN conjunct1] none by simp
  moreover have "RVA (PRD 4096) example_sections 0x1010 4 = Some 0x810"
    using spec [of "0x1010", THEN conjunct2, rule_format, OF fit, THEN conjunct2, rule_format, of 1] hi
    by (simp add: len) (simp add: example_sections_def file_offset_def PRD_def)
  moreover have "RVA (PRD 4096) example_sections 0x1150 4 = Some 0x550"
    using spec [of "0x1150", THEN conjunct2, rule_format, OF fit, THEN conjunct2, rule_format, of 0] lo
    by (simp add: len) (simp add: example_sections_def file_offset_def PRD_def)
  ultimately show ?thesis by simp
qed

text \<open>
  The claim as stated fails where a sum wraps. In the first table the section at
  \<open>0x1000\<close> has the raw size \<open>0xFFFFF100\<close>: the four bytes at \<open>0x1150\<close> lie in it, at the
  file offset \<open>0x550\<close>, which the file of 4096 bytes has; but the \<open>DWORD\<close> sum
  \<open>0x1000 + 0xFFFFF100\<close> is \<open>0x100\<close>, and the result is nothing. In the second the address
  is \<open>2^64 - 1\<close> and the length 1: the byte is in no section, but \<open>va + len\<close> is \<open>0\<close> as an
  \<open>unsigned long\<close>, the section at 0 passes the test, and the result is the file offset
  \<open>0x3FF\<close>.
\<close>

definition wrapping_section :: "IMAGE_SECTION_HEADER list" where
  "wrapping_section =
     [\<lparr>VirtualAddress = 0x1000, SizeOfRawData = 0xFFFFF100, PointerToRawData = 0x400\<rparr>]"

definition section_at_zero :: "IMAGE_SECTION_HEADER list" where
  "section_at_zero =
     [\<lparr>VirtualAddress = 0, SizeOfRawData = 0x100, PointerToRawData = 0x400\<rparr>]"

theorem RVA_test_wraps:
  "in_section (wrapping_section ! 0) 0x1150 4 \<and>
   PRD 4096 (of_nat (file_offset (wrapping_section ! 0) 0x1150)) 4 = Some 0x550 \<and>
   RVA (PRD 4096) wrapping_section 0x1150 4 = None \<and>
   \<not> in_section (section_at_zero ! 0) (unat (0xFFFFFFFFFFFFFFFF :: ulong)) (unat (1 :: ulong)) \<and>
   RVA (PRD 4096) section_at_zero 0xFFFFFFFFFFFFFFFF 1 = Some 0x3FF"
  by (simp add: wrapping_section_def section_at_zero_def in_section_def file_offset_def
      PRD_def RVA_def)

section \<open>Faults of the C program\<close>

text \<open>
  The dumper reads and writes through raw pointers. Where the C program would leave an
  array or dereference \<open>NULL\<close> (undefined behaviour, in practice a crash or a corrupted
  heap) or fail an \<open>assert\<close>, the model returns an error instead of a result.
\<close>

datatype error = Null_dereference | Out_of_bounds | Assertion_failed

definition at :: "'a list \<Rightarrow> nat \<Rightarrow> error + 'a" where
  "at xs i = (if i < length xs then Inr (xs ! i) else Inl Out_of_bounds)"

definition put :: "'a list \<Rightarrow> nat \<Rightarrow> 'a \<Rightarrow> error + 'a list" where
  "put xs i v = (if i < length xs then Inr (xs[i := v]) else Inl Out_of_bounds)"

section \<open>The export tables\<close>

text \<open>
  What \<open>do_grab_sym\<close> and \<open>dump_dir_exported_functions\<close> see of the image: the export
  directory (\<open>None\<close> when \<open>get_dir\<close> returns \<open>NULL\<close>) with the fields they use, its
  address \<open>dir_ptr\<close> and the size \<open>dir_size\<close> of the directory entry, and the three tables
  that the calls of \<open>RVA\<close> resolve, each \<open>None\<close> when \<open>RVA\<close> returns \<open>NULL\<close> and otherwise
  the array it points to:
  \<open>pName = RVA(AddressOfNames, NumberOfNames * sizeof(DWORD))\<close>,
  \<open>pOrdl = RVA(AddressOfNameOrdinals, NumberOfNames * sizeof(WORD))\<close> and
  \<open>pFunc = RVA(AddressOfFunctions, NumberOfFunctions * sizeof(DWORD))\<close>.
  \<open>rva a len\<close> is the pointer \<open>RVA(a, len)\<close> in this image and \<open>cstr p\<close> the C string at
  the pointer \<open>p\<close>.
\<close>

record IMAGE_EXPORT_DIRECTORY =
  Base :: DWORD
  NumberOfFunctions :: DWORD
  NumberOfNames :: DWORD

record export_image =
  exportDir :: "IMAGE_EXPORT_DIRECTORY option"
  dir_ptr :: nat
  dir_size :: DWORD
  pName :: "DWORD list option"
  pOrdl :: "USHORT list option"
  pFunc :: "DWORD list option"
  rva :: "DWORD \<Rightarrow> nat \<Rightarrow> nat option"
  cstr :: "nat \<Rightarrow> string"

section \<open>The export dumper (\<open>dump_dir_exported_functions\<close>, pe.c lines 482 to 537)\<close>

text \<open>
  What the dumper prints, one value for each line: the header lines with the fields of
  the directory, the message that the function table cannot be read, and one line for
  each exported function with its address, its ordinal, its name (\<open>None\<close> for
  \<open><by ordinal>\<close>, else the string handed to \<open>get_symbol_str\<close>, itself \<open>None\<close> for a
  \<open>NULL\<close> pointer) and the target of a forward.
\<close>

datatype export_line =
  Exports_table IMAGE_EXPORT_DIRECTORY
  | Cant_grab_functions
  | Exported DWORD DWORD "string option option" "string option"

text \<open>
  Line 518, \<open>for (i = 0; i < NumberOfNames; i++) funcs[pOrdl[i]] = pName[i]\<close>: \<open>n\<close>
  iterations from index \<open>i\<close>. Neither pointer is tested before the loop.
\<close>

fun merge_names ::
  "DWORD list option \<Rightarrow> USHORT list option \<Rightarrow> nat \<Rightarrow> nat \<Rightarrow> DWORD list \<Rightarrow> error + DWORD list"
where
  "merge_names names ordls 0 i funcs = Inr funcs"
| "merge_names names ordls (Suc n) i funcs =
     (case ordls of None \<Rightarrow> Inl Null_dereference | Some os \<Rightarrow>
     (case at os i of Inl e \<Rightarrow> Inl e | Inr ordl \<Rightarrow>
     (case names of None \<Rightarrow> Inl Null_dereference | Some ns \<Rightarrow>
     (case at ns i of Inl e \<Rightarrow> Inl e | Inr name \<Rightarrow>
     (case put funcs (unat ordl) name of Inl e \<Rightarrow> Inl e
      | Inr funcs' \<Rightarrow> merge_names names ordls n (Suc i) funcs')))))"

text \<open>Lines 520 to 534, the walk over the function table: \<open>n\<close> iterations from slot \<open>i\<close>.\<close>

fun exported_lines ::
  "export_image \<Rightarrow> IMAGE_EXPORT_DIRECTORY \<Rightarrow> DWORD list \<Rightarrow> DWORD list \<Rightarrow> nat \<Rightarrow> nat
     \<Rightarrow> error + export_line list"
where
  "exported_lines exports dir fs funcs 0 i = Inr []"
| "exported_lines exports dir fs funcs (Suc n) i =
     (case at fs i of Inl e \<Rightarrow> Inl e | Inr f \<Rightarrow>
      if f = 0 then exported_lines exports dir fs funcs n (Suc i)
      else (case at funcs i of Inl e \<Rightarrow> Inl e | Inr name \<Rightarrow>
           (case exported_lines exports dir fs funcs n (Suc i) of Inl e \<Rightarrow> Inl e
            | Inr rest \<Rightarrow>
                Inr (Exported f (Base dir + of_nat i)
                       (if name \<noteq> 0 then Some (map_option (cstr exports) (rva exports name 4))
                        else None)
                       (case rva exports f 1 of None \<Rightarrow> None
                        | Some p \<Rightarrow>
                            if dir_ptr exports \<le> p \<and> p < dir_ptr exports + unat (dir_size exports)
                            then Some (cstr exports p) else None)
                     # rest))))"

definition dump_dir_exported_functions :: "export_image \<Rightarrow> error + export_line list" where
  "dump_dir_exported_functions exports =
     (case exportDir exports of None \<Rightarrow> Inr [] | Some dir \<Rightarrow>
     (case pFunc exports of None \<Rightarrow> Inr [Exports_table dir, Cant_grab_functions]
      | Some fs \<Rightarrow>
         (case merge_names (pName exports) (pOrdl exports) (unat (NumberOfNames dir)) 0
                 (replicate (unat (NumberOfFunctions dir)) 0) of
            Inl e \<Rightarrow> Inl e
          | Inr funcs \<Rightarrow>
             (case exported_lines exports dir fs funcs (unat (NumberOfFunctions dir)) 0 of
                Inl e \<Rightarrow> Inl e
              | Inr lines \<Rightarrow> Inr (Exports_table dir # lines)))))"

section \<open>The symbol enumerator (pe.c lines 1512 to 1639)\<close>

record dll_symbol =
  ordinal :: ulong
  symbol :: "string option"

text \<open>
  The globals \<open>dll_symbols\<close> and \<open>dll_current_symbol\<close>. \<open>dll_symbols\<close> is \<open>NULL\<close> or the
  array of symbols that ends with an entry whose \<open>symbol\<close> is \<open>NULL\<close>.
  \<open>dll_current_symbol\<close> is \<open>NULL\<close> or a pointer into that array: the model holds the
  entries from the pointer on, so that \<open>dll_current_symbol++\<close> drops the first of them.
\<close>

record dll_state =
  dll_symbols :: "dll_symbol list option"
  dll_current_symbol :: "dll_symbol list option"

definition initial_dll_state :: dll_state where
  "initial_dll_state = \<lparr>dll_symbols = None, dll_current_symbol = None\<rparr>"

text \<open>\<open>symbol_cmp\<close>: the result of the C comparison \<open>>\<close> is 1 or 0.\<close>

definition symbol_cmp :: "dll_symbol \<Rightarrow> dll_symbol \<Rightarrow> int" where
  "symbol_cmp left right = (if ordinal left > ordinal right then 1 else 0)"

text \<open>
  Modelled from the spec: \<open>str_toupper\<close>, defined in another file of the dumper, turns a
  string to uppercase in place (the spec: the synthesized name is uppercased).
\<close>

definition toupper :: "char \<Rightarrow> char" where
  "toupper c =
     (case map_of (zip ''abcdefghijklmnopqrstuvwxyz'' ''ABCDEFGHIJKLMNOPQRSTUVWXYZ'') c of
        None \<Rightarrow> c | Some u \<Rightarrow> u)"

definition str_toupper :: "string \<Rightarrow> string" where
  "str_toupper str = map toupper str"

text \<open>The conversion \<open>%u\<close> of \<open>snprintf\<close>: an unsigned number in decimal.\<close>

function decimal :: "nat \<Rightarrow> string" where
  "decimal n = (if n < 10 then [''0123456789'' ! n]
                else decimal (n div 10) @ [''0123456789'' ! (n mod 10)])"
  by pat_completeness auto
termination
  by (relation "measure id") auto

declare decimal.simps [simp del]

text \<open>
  \<open>snprintf (ordinal_text, sizeof(ordinal_text), "%s_%u", module, n)\<close> with
  \<open>char ordinal_text[256]\<close>: at most 255 characters are kept before the final zero.
\<close>

definition ordinal_text :: "string \<Rightarrow> DWORD \<Rightarrow> string" where
  "ordinal_text module n = take 255 (module @ ''_'' @ decimal (unat n))"

text \<open>
  The first loop of \<open>do_grab_sym\<close> (lines 1575 to 1583), \<open>n\<close> iterations from index \<open>j\<close>.
  \<open>str name\<close> is the C string at \<open>RVA(name, sizeof(DWORD))\<close>, \<open>None\<close> for \<open>NULL\<close>;
  \<open>bitmap\<close> is the array \<open>map\<close>, \<open>syms\<close> the entries of \<open>dll_symbols\<close> written so far
  (\<open>j\<close> of them) and \<open>cap\<close> the number of entries that \<open>malloc\<close> gave the array.
\<close>

fun grab_named ::
  "IMAGE_EXPORT_DIRECTORY \<Rightarrow> DWORD list \<Rightarrow> USHORT list \<Rightarrow> (DWORD \<Rightarrow> string option) \<Rightarrow> nat
     \<Rightarrow> nat \<Rightarrow> nat \<Rightarrow> DWORD list \<Rightarrow> dll_symbol list \<Rightarrow> error + (DWORD list \<times> dll_symbol list)"
where
  "grab_named dir names ordls str cap 0 j bitmap syms = Inr (bitmap, syms)"
| "grab_named dir names ordls str cap (Suc n) j bitmap syms =
     (case at ordls j of Inl e \<Rightarrow> Inl e | Inr ordl \<Rightarrow>
     (case at bitmap (unat ordl div 32) of Inl e \<Rightarrow> Inl e | Inr m \<Rightarrow>
     (case put bitmap (unat ordl div 32) (m OR push_bit (unat ordl mod 32) 1) of
        Inl e \<Rightarrow> Inl e | Inr bitmap' \<Rightarrow>
     (case at names j of Inl e \<Rightarrow> Inl e | Inr name \<Rightarrow>
      if j < cap
      then grab_named dir names ordls str cap n (Suc j) bitmap'
             (syms @ [\<lparr>ordinal = ucast (Base dir + ucast ordl),
                       symbol = Some (case str name of None \<Rightarrow> ''cant_get_function''
                                      | Some ptr \<Rightarrow> ptr)\<rparr>])
      else Inl Out_of_bounds))))"

text \<open>
  The second loop (lines 1585 to 1601), \<open>n\<close> iterations from slot \<open>i\<close>. \<open>module\<close> is
  \<open>globals.forward_dll ? globals.forward_dll : OUTPUT_UC_DLL_NAME\<close>.
\<close>

fun grab_ordinal_only ::
  "IMAGE_EXPORT_DIRECTORY \<Rightarrow> DWORD list \<Rightarrow> string \<Rightarrow> DWORD list \<Rightarrow> nat
     \<Rightarrow> nat \<Rightarrow> nat \<Rightarrow> dll_symbol list \<Rightarrow> error + dll_symbol list"
where
  "grab_ordinal_only dir funcs module bitmap cap 0 i syms = Inr syms"
| "grab_ordinal_only dir funcs module bitmap cap (Suc n) i syms =
     (case at funcs i of Inl e \<Rightarrow> Inl e | Inr f \<Rightarrow>
      if f = 0 then grab_ordinal_only dir funcs module bitmap cap n (Suc i) syms
      else (case at bitmap (i div 32) of Inl e \<Rightarrow> Inl e | Inr m \<Rightarrow>
        if m AND push_bit (i mod 32) 1 \<noteq> 0
        then grab_ordinal_only dir funcs module bitmap cap n (Suc i) syms
        else if \<not> length syms < cap then Inl Out_of_bounds
        else if \<not> Suc (length syms) \<le> unat (NumberOfFunctions dir) then Inl Assertion_failed
        else grab_ordinal_only dir funcs module bitmap cap n (Suc i)
               (syms @ [\<lparr>ordinal = ucast (Base dir + of_nat i),
                         symbol = Some (str_toupper (ordinal_text module (Base dir + of_nat i)))\<rparr>])))"

text \<open>
  Lines 1568 to 1601: the two allocations and the two loops. The result is the array
  \<open>dll_symbols\<close> before it is sorted, \<open>j\<close> entries.
\<close>

definition grab_symbols ::
  "string \<Rightarrow> IMAGE_EXPORT_DIRECTORY \<Rightarrow> DWORD list \<Rightarrow> USHORT list \<Rightarrow> DWORD list
     \<Rightarrow> (DWORD \<Rightarrow> string option) \<Rightarrow> error + dll_symbol list"
where
  "grab_symbols module dir names ordls funcs str =
     (let cap = unat (NumberOfFunctions dir + 1);
          bitmap = replicate (unat (drop_bit 5 ((NumberOfFunctions dir + 31) AND NOT 31))) 0
      in (case grab_named dir names ordls str cap (unat (NumberOfNames dir)) 0 bitmap [] of
            Inl e \<Rightarrow> Inl e
          | Inr (bitmap', syms) \<Rightarrow>
              grab_ordinal_only dir funcs module bitmap' cap (unat (NumberOfFunctions dir)) 0 syms))"

text \<open>
  \<open>do_grab_sym\<close>. The C library's \<open>qsort\<close> is the parameter \<open>qsort\<close>, called with the
  comparison \<open>symbol_cmp\<close>; \<open>forward_dll\<close> and \<open>uc_dll_name\<close> are \<open>globals.forward_dll\<close>
  and \<open>OUTPUT_UC_DLL_NAME\<close>. The field \<open>ordinal\<close> of the final entry is never written
  by the program, and never read; 0 stands for it. The messages are left out.
\<close>

definition do_grab_sym ::
  "((dll_symbol \<Rightarrow> dll_symbol \<Rightarrow> int) \<Rightarrow> dll_symbol list \<Rightarrow> dll_symbol list)
     \<Rightarrow> string option \<Rightarrow> string \<Rightarrow> export_image \<Rightarrow> dll_state \<Rightarrow> error + dll_state"
where
  "do_grab_sym qsort forward_dll uc_dll_name exports st =
     (case exportDir exports of None \<Rightarrow> Inr st | Some dir \<Rightarrow>
     (case pName exports of None \<Rightarrow> Inr st | Some names \<Rightarrow>
     (case pOrdl exports of None \<Rightarrow> Inr st | Some ordls \<Rightarrow>
     (case pFunc exports of None \<Rightarrow> Inr st | Some funcs \<Rightarrow>
     (case grab_symbols (case forward_dll of None \<Rightarrow> uc_dll_name | Some f \<Rightarrow> f)
             dir names ordls funcs (\<lambda>name. map_option (cstr exports) (rva exports name 4)) of
        Inl e \<Rightarrow> Inl e
      | Inr syms \<Rightarrow>
          if length syms < unat (NumberOfFunctions dir + 1)
          then let array = qsort symbol_cmp syms @ [\<lparr>ordinal = 0, symbol = None\<rparr>]
               in Inr \<lparr>dll_symbols = Some array, dll_current_symbol = Some array\<rparr>
          else Inl Out_of_bounds)))))"

text \<open>
  Modelled from the spec: the caller's structure \<open>parsed_symbol\<close> is declared in a header
  of the dumper that is not among the sources; the spec gives a symbol a name and an
  ordinal. \<open>strdup\<close> is taken to succeed.
\<close>

record parsed_symbol =
  sym_symbol :: "string option"
  sym_ordinal :: ulong

text \<open>\<open>dll_next_symbol\<close>: the return value, the globals and the caller's structure.\<close>

definition dll_next_symbol :: "dll_state \<Rightarrow> parsed_symbol \<Rightarrow> error + (int \<times> dll_state \<times> parsed_symbol)" where
  "dll_next_symbol st psym =
     (case dll_current_symbol st of None \<Rightarrow> Inr (1, st, psym)
      | Some [] \<Rightarrow> Inl Out_of_bounds
      | Some (cur # rest) \<Rightarrow>
          (case symbol cur of None \<Rightarrow> Inr (1, st, psym)
           | Some name \<Rightarrow>
               if dll_symbols st = None then Inl Assertion_failed
               else Inr (0, st\<lparr>dll_current_symbol := Some rest\<rparr>,
                         psym\<lparr>sym_symbol := Some name, sym_ordinal := ordinal cur\<rparr>)))"

section \<open>What the symbol enumerator collects\<close>

text \<open>
  The specification's words: a named export keeps its name and gets the ordinal
  \<open>Base\<close> plus its ordinal offset; an ordinal-only export gets the name
  \<open>module_ordinal\<close> in uppercase, here cut to the 255 characters that
  \<open>ordinal_text\<close> holds; a slot is claimed when the ordinal offset of some name is its
  index; \<open>bit_of\<close> reads the bitmap of the claimed slots.
\<close>

definition named_symbol ::
  "IMAGE_EXPORT_DIRECTORY \<Rightarrow> DWORD list \<Rightarrow> USHORT list \<Rightarrow> (DWORD \<Rightarrow> string option) \<Rightarrow> nat \<Rightarrow> dll_symbol"
where
  "named_symbol dir names ordls str j =
     \<lparr>ordinal = ucast (Base dir + ucast (ordls ! j)),
      symbol = Some (case str (names ! j) of None \<Rightarrow> ''cant_get_function'' | Some ptr \<Rightarrow> ptr)\<rparr>"

definition ordinal_only_symbol :: "string \<Rightarrow> IMAGE_EXPORT_DIRECTORY \<Rightarrow> nat \<Rightarrow> dll_symbol" where
  "ordinal_only_symbol module dir i =
     \<lparr>ordinal = ucast (Base dir + of_nat i),
      symbol = Some (str_toupper (take 255 (module @ ''_'' @ decimal (unat (Base dir + of_nat i)))))\<rparr>"

definition claimed :: "IMAGE_EXPORT_DIRECTORY \<Rightarrow> USHORT list \<Rightarrow> nat \<Rightarrow> bool" where
  "claimed dir ordls i = (\<exists>j < unat (NumberOfNames dir). unat (ordls ! j) = i)"

definition bit_of :: "DWORD list \<Rightarrow> nat \<Rightarrow> bool" where
  "bit_of bitmap i =
     (i div 32 < length bitmap \<and> bitmap ! (i div 32) AND push_bit (i mod 32) 1 \<noteq> 0)"

lemma test_bit: "(m AND push_bit k 1 \<noteq> 0) = bit m k" for m :: DWORD
  by (simp add: bit_iff_and_push_bit_not_eq_0)

lemma bit_of_update:
  assumes "idx < length bitmap" "idx = ordl div 32"
  shows "bit_of (bitmap[idx := bitmap ! idx OR push_bit (ordl mod 32) 1]) i
         = (bit_of bitmap i \<or> ordl = i)"
proof (cases "i div 32 = idx")
  case True
  have "(ordl mod 32 = i mod 32) = (ordl = i)"
    using True assms(2) by (metis div_mult_mod_eq)
  then show ?thesis
    using True assms(1)
    by (auto simp add: bit_of_def test_bit bit_or_iff bit_push_bit_iff bit_1_iff
        simp del: push_bit_of_1)
next
  case False
  then have "ordl \<noteq> i" using assms(2) by auto
  with False show ?thesis
    by (simp add: bit_of_def)
qed

lemma ex_from_Suc:
  "(\<exists>k. j \<le> k \<and> k < j + Suc n \<and> P k) = (P j \<or> (\<exists>k. Suc j \<le> k \<and> k < Suc j + n \<and> P k))"
proof
  assume "\<exists>k. j \<le> k \<and> k < j + Suc n \<and> P k"
  then obtain k where k: "j \<le> k" "k < j + Suc n" "P k" by blast
  show "P j \<or> (\<exists>k. Suc j \<le> k \<and> k < Suc j + n \<and> P k)"
  proof (cases "k = j")
    case True
    with k(3) show ?thesis by simp
  next
    case False
    with k have "Suc j \<le> k \<and> k < Suc j + n \<and> P k" by simp
    then show ?thesis by blast
  qed
next
  assume "P j \<or> (\<exists>k. Suc j \<le> k \<and> k < Suc j + n \<and> P k)"
  then show "\<exists>k. j \<le> k \<and> k < j + Suc n \<and> P k"
  proof
    assume "P j"
    then have "j \<le> j \<and> j < j + Suc n \<and> P j" by simp
    then show ?thesis by blast
  next
    assume "\<exists>k. Suc j \<le> k \<and> k < Suc j + n \<and> P k"
    then obtain k where "Suc j \<le> k" "k < Suc j + n" "P k" by blast
    then have "j \<le> k \<and> k < j + Suc n \<and> P k" by simp
    then show ?thesis by blast
  qed
qed

lemma grab_named_result:
  "grab_named dir names ordls str cap n j bitmap syms = Inr (bitmap', syms')
   \<Longrightarrow> syms' = syms @ map (named_symbol dir names ordls str) [j..<j + n] \<and>
       length bitmap' = length bitmap \<and>
       (\<forall>i. bit_of bitmap' i = (bit_of bitmap i \<or> (\<exists>k. j \<le> k \<and> k < j + n \<and> unat (ordls ! k) = i)))"
proof (induction n arbitrary: j bitmap syms)
  case 0
  then show ?case by auto
next
  case (Suc n)
  let ?o = "unat (ordls ! j)"
  let ?bm = "bitmap[?o div 32 := bitmap ! (?o div 32) OR push_bit (?o mod 32) 1]"
  from Suc.prems have ok: "j < length ordls" "?o div 32 < length bitmap" "j < length names" "j < cap"
    and rest: "grab_named dir names ordls str cap n (Suc j) ?bm
                 (syms @ [named_symbol dir names ordls str j]) = Inr (bitmap', syms')"
    by (auto simp add: at_def put_def named_symbol_def split: if_splits)
  note ih = Suc.IH [OF rest]
  have upt: "[j..<j + Suc n] = j # [Suc j..<Suc j + n]"
    by (simp add: upt_rec)
  have bits: "bit_of ?bm i = (bit_of bitmap i \<or> ?o = i)" for i
    using ok(2) by (rule bit_of_update) simp
  have "syms' = syms @ map (named_symbol dir names ordls str) [j..<j + Suc n]"
    using ih by (simp only: upt) simp
  moreover have "length bitmap' = length bitmap"
    using ih by simp
  moreover have "bit_of bitmap' i
      = (bit_of bitmap i \<or> (\<exists>k. j \<le> k \<and> k < j + Suc n \<and> unat (ordls ! k) = i))" for i
  proof -
    have "bit_of bitmap' i
        = (bit_of ?bm i \<or> (\<exists>k. Suc j \<le> k \<and> k < Suc j + n \<and> unat (ordls ! k) = i))"
      using ih by blast
    then show ?thesis
      unfolding bits ex_from_Suc [of j n "\<lambda>k. unat (ordls ! k) = i"] by blast
  qed
  ultimately show ?case by blast
qed

lemma grab_ordinal_only_result:
  "grab_ordinal_only dir funcs module bitmap cap n i syms = Inr syms'
   \<Longrightarrow> syms' = syms @ map (ordinal_only_symbol module dir)
                         (filter (\<lambda>k. funcs ! k \<noteq> 0 \<and> \<not> bit_of bitmap k) [i..<i + n])"
proof (induction n arbitrary: i syms)
  case 0
  then show ?case by simp
next
  case (Suc n)
  have upt: "[i..<i + Suc n] = i # [Suc i..<Suc i + n]"
    by (simp add: upt_rec)
  show ?case
  proof (cases "funcs ! i \<noteq> 0 \<and> \<not> bit_of bitmap i")
    case True
    with Suc.prems have
      "grab_ordinal_only dir funcs module bitmap cap n (Suc i)
         (syms @ [ordinal_only_symbol module dir i]) = Inr syms'"
      by (auto simp add: at_def bit_of_def ordinal_only_symbol_def ordinal_text_def
          split: if_splits)
    from Suc.IH [OF this] True show ?thesis
      by (simp only: upt) simp
  next
    case False
    with Suc.prems have "grab_ordinal_only dir funcs module bitmap cap n (Suc i) syms = Inr syms'"
      by (auto simp add: at_def bit_of_def split: if_splits)
    from Suc.IH [OF this] False show ?thesis
      by (simp only: upt) simp
  qed
qed


lemma grab_named_numeral:
  "grab_named dir names ordls str cap (numeral k) j bitmap syms
     = grab_named dir names ordls str cap (Suc (pred_numeral k)) j bitmap syms"
  by (simp only: numeral_eq_Suc)

lemma grab_ordinal_only_numeral:
  "grab_ordinal_only dir funcs module bitmap cap (numeral k) i syms
     = grab_ordinal_only dir funcs module bitmap cap (Suc (pred_numeral k)) i syms"
  by (simp only: numeral_eq_Suc)

lemma bit_of_replicate_0: "\<not> bit_of (replicate n 0) i"
  by (simp add: bit_of_def)

lemma grab_symbols_result:
  assumes ok: "grab_symbols module dir names ordls funcs str = Inr syms"
  shows "syms = map (named_symbol dir names ordls str) [0..<unat (NumberOfNames dir)] @
             map (ordinal_only_symbol module dir)
               (filter (\<lambda>i. funcs ! i \<noteq> 0 \<and> \<not> claimed dir ordls i)
                  [0..<unat (NumberOfFunctions dir)])"
proof -
  let ?bm0 = "replicate (unat (drop_bit 5 ((NumberOfFunctions dir + 31) AND NOT 31))) (0 :: DWORD)"
  let ?cap = "unat (NumberOfFunctions dir + 1)"
  from ok obtain bitmap' syms1 where
    named: "grab_named dir names ordls str ?cap (unat (NumberOfNames dir)) 0 ?bm0 [] = Inr (bitmap', syms1)"
    and only: "grab_ordinal_only dir funcs module bitmap' ?cap (unat (NumberOfFunctions dir)) 0 syms1
               = Inr syms"
    by (auto simp add: grab_symbols_def Let_def split: sum.splits)
  have s1: "syms1 = map (named_symbol dir names ordls str) [0..<unat (NumberOfNames dir)]"
    using grab_named_result [OF named] by simp
  have bits: "bit_of bitmap' i = claimed dir ordls i" for i
    using grab_named_result [OF named] by (simp add: bit_of_replicate_0 claimed_def)
  show ?thesis
    using grab_ordinal_only_result [OF only] by (simp add: s1 bits)
qed

lemma grab_symbols_three_functions_one_named:
  assumes nz: "f0 \<noteq> 0 \<and> f2 \<noteq> 0"
  shows "grab_symbols module \<lparr>Base = base, NumberOfFunctions = 3, NumberOfNames = 1\<rparr>
          [name] [1] [f0, f1, f2] str
        = Inr [named_symbol \<lparr>Base = base, NumberOfFunctions = 3, NumberOfNames = 1\<rparr> [name] [1] str 0,
               \<lparr>ordinal = ucast (base + 0),
                symbol = Some (str_toupper (take 255 (module @ ''_'' @ decimal (unat (base + 0)))))\<rparr>,
               \<lparr>ordinal = ucast (base + 2),
                symbol = Some (str_toupper (take 255 (module @ ''_'' @ decimal (unat (base + 2)))))\<rparr>]"
proof -
  let ?d = "\<lparr>Base = base, NumberOfFunctions = 3, NumberOfNames = 1\<rparr>"
  have nums: "unat (NumberOfFunctions ?d) = Suc (Suc (Suc 0))" "unat (NumberOfNames ?d) = Suc 0"
    "unat (NumberOfFunctions ?d + 1) = 4"
    "replicate (unat (drop_bit 5 ((NumberOfFunctions ?d + 31) AND NOT 31))) (0 :: DWORD) = [0]"
    by simp_all
  have named: "grab_named ?d [name] [1] str 4 (Suc 0) 0 [0] []
      = Inr ([2], [named_symbol ?d [name] [1] str 0])"
    by (simp add: at_def put_def named_symbol_def)
  have only: "grab_ordinal_only ?d [f0, f1, f2] module [2] 4 (Suc (Suc (Suc 0))) 0
        [named_symbol ?d [name] [1] str 0]
      = Inr [named_symbol ?d [name] [1] str 0,
             \<lparr>ordinal = ucast (base + 0),
              symbol = Some (str_toupper (take 255 (module @ ''_'' @ decimal (unat (base + 0)))))\<rparr>,
             \<lparr>ordinal = ucast (base + 2),
              symbol = Some (str_toupper (take 255 (module @ ''_'' @ decimal (unat (base + 2)))))\<rparr>]"
    using nz by (simp add: at_def ordinal_text_def)
  show ?thesis
    unfolding grab_symbols_def Let_def nums named by (simp only: sum.case prod.case only)
qed

text \<open>
  Claim C6, as amended. When the construction runs to its end, the array holds the named
  exports in the order of the name table and after them, in slot order, one symbol
  for every slot of the function table that is not zero and is claimed by no named
  export; its ordinal is \<open>Base\<close> plus the slot index (a 32-bit sum) and its name is the
  uppercase of the first 255 characters of: the module name, an underscore, the ordinal
  in decimal. For a table of three functions of which only the second is named, the
  first and the third get the names made from \<open>Base + 0\<close> and \<open>Base + 2\<close>.
\<close>

theorem ordinal_only_exports_named_module_ordinal:
  "(grab_symbols module dir names ordls funcs str = Inr syms \<longrightarrow>
      syms = map (named_symbol dir names ordls str) [0..<unat (NumberOfNames dir)] @
             map (ordinal_only_symbol module dir)
               (filter (\<lambda>i. funcs ! i \<noteq> 0 \<and> \<not> claimed dir ordls i)
                  [0..<unat (NumberOfFunctions dir)])) \<and>
   (f0 \<noteq> 0 \<and> f2 \<noteq> 0 \<longrightarrow>
      grab_symbols module \<lparr>Base = base, NumberOfFunctions = 3, NumberOfNames = 1\<rparr>
          [name] [1] [f0, f1, f2] str
        = Inr [named_symbol \<lparr>Base = base, NumberOfFunctions = 3, NumberOfNames = 1\<rparr> [name] [1] str 0,
               \<lparr>ordinal = ucast (base + 0),
                symbol = Some (str_toupper (take 255 (module @ ''_'' @ decimal (unat (base + 0)))))\<rparr>,
               \<lparr>ordinal = ucast (base + 2),
                symbol = Some (str_toupper (take 255 (module @ ''_'' @ decimal (unat (base + 2)))))\<rparr>])"
proof (intro conjI impI)
  assume "grab_symbols module dir names ordls funcs str = Inr syms"
  then show "syms = map (named_symbol dir names ordls str) [0..<unat (NumberOfNames dir)] @
             map (ordinal_only_symbol module dir)
               (filter (\<lambda>i. funcs ! i \<noteq> 0 \<and> \<not> claimed dir ordls i)
                  [0..<unat (NumberOfFunctions dir)])"
    by (rule grab_symbols_result)
next
  assume "f0 \<noteq> 0 \<and> f2 \<noteq> 0"
  then show "grab_symbols module \<lparr>Base = base, NumberOfFunctions = 3, NumberOfNames = 1\<rparr>
          [name] [1] [f0, f1, f2] str
        = Inr [named_symbol \<lparr>Base = base, NumberOfFunctions = 3, NumberOfNames = 1\<rparr> [name] [1] str 0,
               \<lparr>ordinal = ucast (base + 0),
                symbol = Some (str_toupper (take 255 (module @ ''_'' @ decimal (unat (base + 0)))))\<rparr>,
               \<lparr>ordinal = ucast (base + 2),
                symbol = Some (str_toupper (take 255 (module @ ''_'' @ decimal (unat (base + 2)))))\<rparr>]"
    by (rule grab_symbols_three_functions_one_named)
qed

definition example_names :: "DWORD \<Rightarrow> string option" where
  "example_names a = (if a = 0x2000 then Some ''strlen'' else None)"

theorem ordinal_only_exports_named_module_ordinal_witness:
  "grab_symbols ''msvcrt'' \<lparr>Base = 1, NumberOfFunctions = 3, NumberOfNames = 1\<rparr>
       [0x2000] [1] [0x1000, 0x1010, 0x1020] example_names
     = Inr [\<lparr>ordinal = 2, symbol = Some ''strlen''\<rparr>,
            \<lparr>ordinal = 1, symbol = Some ''MSVCRT_1''\<rparr>,
            \<lparr>ordinal = 3, symbol = Some ''MSVCRT_3''\<rparr>]"
  using ordinal_only_exports_named_module_ordinal
    [of "''msvcrt''" "\<lparr>Base = 1, NumberOfFunctions = 3, NumberOfNames = 1\<rparr>" "[0x2000]" "[1]"
        "[0x1000, 0x1010, 0x1020]" example_names _ "0x1000" "0x1020" 1 "0x2000" "0x1010"]
  by (simp add: named_symbol_def example_names_def str_toupper_def toupper_def decimal.simps)

text \<open>
  The claim as stated fails for a long module name: with a module name of 254
  characters the buffer of 256 bytes has no room for the ordinal, and the synthesized
  name ends with the underscore.
\<close>

theorem long_module_name_loses_the_ordinal:
  "grab_symbols (replicate 254 (CHR ''m'')) \<lparr>Base = 1, NumberOfFunctions = 1, NumberOfNames = 0\<rparr>
       [] [] [0x1000] (\<lambda>a. None)
     = Inr [\<lparr>ordinal = 1, symbol = Some (replicate 254 (CHR ''M'') @ ''_'')\<rparr>] \<and>
   str_toupper (replicate 254 (CHR ''m'') @ ''_'' @ decimal (unat (1 + 0 :: DWORD)))
     = replicate 254 (CHR ''M'') @ ''_1''"
  by (simp add: grab_symbols_def at_def ordinal_text_def str_toupper_def toupper_def decimal.simps)

section \<open>Name ordinals that leave the function table\<close>

text \<open>
  An export directory with one function and one name whose ordinal offset is 40.
\<close>

definition stray_ordinal_export :: export_image where
  "stray_ordinal_export =
     \<lparr>exportDir = Some \<lparr>Base = 1, NumberOfFunctions = 1, NumberOfNames = 1\<rparr>,
      dir_ptr = 0x400, dir_size = 0x60,
      pName = Some [0x2000], pOrdl = Some [40], pFunc = Some [0x1000],
      rva = (\<lambda>a len. None), cstr = (\<lambda>p. [])\<rparr>"

text \<open>
  Claim C2 asks that a name whose ordinal offset is not below \<open>NumberOfFunctions\<close> is
  treated as absent, in the dumper and in the enumerator. The program has no such
  test. On the directory above the dumper writes \<open>funcs[40]\<close> in an array of one entry,
  and the enumerator writes \<open>map[1]\<close> in a bitmap of one word: both leave their array.
\<close>

theorem name_ordinal_beyond_function_table_is_used:
  "dump_dir_exported_functions stray_ordinal_export = Inl Out_of_bounds \<and>
   do_grab_sym qsort forward_dll uc_dll_name stray_ordinal_export st = Inl Out_of_bounds"
proof
  show "dump_dir_exported_functions stray_ordinal_export = Inl Out_of_bounds"
    by (simp add: stray_ordinal_export_def dump_dir_exported_functions_def at_def put_def)
  show "do_grab_sym qsort forward_dll uc_dll_name stray_ordinal_export st = Inl Out_of_bounds"
    by (simp add: stray_ordinal_export_def do_grab_sym_def grab_symbols_def at_def put_def)
qed

section \<open>The states of the enumerator\<close>

text \<open>
  The states that the globals can reach: the initial one, and those after a run of
  \<open>do_grab_sym\<close> or a call of \<open>dll_next_symbol\<close> that returns. In each of them the
  cursor, when it is set, points into an array that ends with the entry whose \<open>symbol\<close>
  is \<open>NULL\<close>, and no entry before the last has a \<open>NULL\<close> symbol.
\<close>

inductive enumerator_reachable ::
  "((dll_symbol \<Rightarrow> dll_symbol \<Rightarrow> int) \<Rightarrow> dll_symbol list \<Rightarrow> dll_symbol list) \<Rightarrow> dll_state \<Rightarrow> bool"
  for qsort
where
  start: "enumerator_reachable qsort initial_dll_state"
| grabbed: "enumerator_reachable qsort st
         \<Longrightarrow> do_grab_sym qsort forward_dll uc_dll_name exports st = Inr st'
         \<Longrightarrow> enumerator_reachable qsort st'"
| stepped: "enumerator_reachable qsort st
         \<Longrightarrow> dll_next_symbol st psym = Inr (r, st', psym')
         \<Longrightarrow> enumerator_reachable qsort st'"

definition terminated_array :: "dll_symbol list \<Rightarrow> bool" where
  "terminated_array cursor =
     (cursor \<noteq> [] \<and> symbol (last cursor) = None \<and> (\<forall>s \<in> set (butlast cursor). symbol s \<noteq> None))"

definition enumerator_invariant :: "dll_state \<Rightarrow> bool" where
  "enumerator_invariant st =
     (case dll_current_symbol st of None \<Rightarrow> True
      | Some cursor \<Rightarrow> dll_symbols st \<noteq> None \<and> terminated_array cursor)"

lemma named_symbol_has_name: "\<exists>y. symbol (named_symbol dir names ordls str j) = Some y"
  by (simp add: named_symbol_def)

lemma ordinal_only_symbol_has_name: "\<exists>y. symbol (ordinal_only_symbol module dir i) = Some y"
  by (simp add: ordinal_only_symbol_def)

lemma grab_symbols_have_names:
  assumes "grab_symbols module dir names ordls funcs str = Inr syms" "s \<in> set syms"
  shows "symbol s \<noteq> None"
  using assms(2) unfolding grab_symbols_result [OF assms(1)]
  by (auto simp add: named_symbol_has_name ordinal_only_symbol_has_name)

lemma invariant_do_grab_sym:
  assumes perm: "\<forall>xs. mset (qsort symbol_cmp xs) = mset xs"
    and inv: "enumerator_invariant st"
    and run: "do_grab_sym qsort forward_dll uc_dll_name exports st = Inr st'"
  shows "enumerator_invariant st'"
proof (cases "st' = st")
  case True
  with inv show ?thesis by simp
next
  case False
  with run obtain module dir names ordls funcs str syms where
    syms: "grab_symbols module dir names ordls funcs str = Inr syms"
    and st': "st' = \<lparr>dll_symbols = Some (qsort symbol_cmp syms @ [\<lparr>ordinal = 0, symbol = None\<rparr>]),
                     dll_current_symbol = Some (qsort symbol_cmp syms @ [\<lparr>ordinal = 0, symbol = None\<rparr>])\<rparr>"
    by (auto simp add: do_grab_sym_def Let_def split: option.splits sum.splits if_splits)
  have "set (qsort symbol_cmp syms) = set syms"
    using perm by (metis set_mset_mset)
  then have "\<forall>s \<in> set (qsort symbol_cmp syms). symbol s \<noteq> None"
    using grab_symbols_have_names [OF syms] by blast
  then show ?thesis
    by (simp add: st' enumerator_invariant_def terminated_array_def)
qed

lemma terminated_array_tail:
  "terminated_array (cur # rest) \<Longrightarrow> rest \<noteq> [] \<Longrightarrow> terminated_array rest \<and> symbol cur \<noteq> None"
  by (auto simp add: terminated_array_def)

lemma terminated_array_single: "terminated_array [e] \<Longrightarrow> symbol e = None"
  by (simp add: terminated_array_def)

lemma invariant_dll_next_symbol:
  assumes inv: "enumerator_invariant st"
    and run: "dll_next_symbol st psym = Inr (r, st', psym')"
  shows "enumerator_invariant st'"
proof (cases "dll_current_symbol st")
  case None
  with run inv show ?thesis by (simp add: dll_next_symbol_def)
next
  case (Some cursor)
  with inv have arr: "dll_symbols st \<noteq> None" "terminated_array cursor"
    by (simp_all add: enumerator_invariant_def)
  then obtain cur rest where cursor: "cursor = cur # rest"
    by (cases cursor) (auto simp add: terminated_array_def)
  show ?thesis
  proof (cases "rest = []")
    case True
    with arr cursor have "symbol cur = None" by (simp add: terminated_array_single)
    with run Some cursor inv show ?thesis by (simp add: dll_next_symbol_def)
  next
    case False
    with arr cursor have "terminated_array rest" "symbol cur \<noteq> None"
      using terminated_array_tail by blast+
    with run Some cursor arr show ?thesis
      by (auto simp add: dll_next_symbol_def enumerator_invariant_def)
  qed
qed

lemma reachable_invariant:
  assumes "\<forall>xs. mset (qsort symbol_cmp xs) = mset xs" "enumerator_reachable qsort st"
  shows "enumerator_invariant st"
  using assms(2)
proof (induction rule: enumerator_reachable.induct)
  case start
  show ?case by (simp add: enumerator_invariant_def initial_dll_state_def)
next
  case (grabbed st forward_dll uc_dll_name exports st')
  then show ?case using invariant_do_grab_sym [where qsort = qsort] assms(1) by blast
next
  case (stepped st psym r st' psym')
  then show ?case using invariant_dll_next_symbol by blast
qed

text \<open>
  Claim C10. In every reachable state (the library's \<open>qsort\<close> rearranges the array it is
  given): when the cursor is not set (the list was never built) or stands on the final
  entry (it has passed the last symbol), \<open>dll_next_symbol\<close> returns 1 and leaves the
  globals and the caller's structure as they are; otherwise it returns 0, stores the
  name and the ordinal of the current symbol in the caller's structure and moves the
  cursor by one. A run of \<open>do_grab_sym\<close> on an image with no export directory leaves the
  initial state, where the cursor is not set.
\<close>

theorem dll_next_symbol_ends_or_advances:
  assumes perm: "\<forall>xs. mset (qsort symbol_cmp xs) = mset xs"
    and reach: "enumerator_reachable qsort st"
  shows
   "(dll_current_symbol st = None \<or> (\<exists>e. dll_current_symbol st = Some [e])
       \<longrightarrow> dll_next_symbol st psym = Inr (1, st, psym)) \<and>
    (\<forall>cur rest. dll_current_symbol st = Some (cur # rest) \<and> rest \<noteq> []
       \<longrightarrow> (\<exists>name. symbol cur = Some name \<and>
              dll_next_symbol st psym
                = Inr (0, st\<lparr>dll_current_symbol := Some rest\<rparr>,
                       psym\<lparr>sym_symbol := Some name, sym_ordinal := ordinal cur\<rparr>))) \<and>
    (exportDir exports = None
       \<longrightarrow> do_grab_sym qsort forward_dll uc_dll_name exports initial_dll_state
             = Inr initial_dll_state \<and>
           dll_next_symbol initial_dll_state psym = Inr (1, initial_dll_state, psym))"
proof (intro conjI allI impI)
  note inv = reachable_invariant [OF perm reach]
  {
    assume "dll_current_symbol st = None \<or> (\<exists>e. dll_current_symbol st = Some [e])"
    then show "dll_next_symbol st psym = Inr (1, st, psym)"
    proof
      assume "dll_current_symbol st = None"
      then show ?thesis by (simp add: dll_next_symbol_def)
    next
      assume "\<exists>e. dll_current_symbol st = Some [e]"
      then obtain e where e: "dll_current_symbol st = Some [e]" by blast
      with inv have "symbol e = None"
        by (simp add: enumerator_invariant_def terminated_array_single)
      with e show ?thesis by (simp add: dll_next_symbol_def)
    qed
  next
    fix cur rest
    assume c: "dll_current_symbol st = Some (cur # rest) \<and> rest \<noteq> []"
    with inv have arr: "dll_symbols st \<noteq> None" "symbol cur \<noteq> None"
      using terminated_array_tail by (auto simp add: enumerator_invariant_def)
    then obtain name where "symbol cur = Some name" by blast
    with c arr show "\<exists>name. symbol cur = Some name \<and>
              dll_next_symbol st psym
                = Inr (0, st\<lparr>dll_current_symbol := Some rest\<rparr>,
                       psym\<lparr>sym_symbol := Some name, sym_ordinal := ordinal cur\<rparr>)"
      by (simp add: dll_next_symbol_def)
  next
    assume "exportDir exports = None"
    then show "do_grab_sym qsort forward_dll uc_dll_name exports initial_dll_state
             = Inr initial_dll_state"
      by (simp add: do_grab_sym_def)
  next
    show "dll_next_symbol initial_dll_state psym = Inr (1, initial_dll_state, psym)"
      by (simp add: dll_next_symbol_def initial_dll_state_def)
  }
qed

section \<open>The library's qsort\<close>

text \<open>
  \<open>qsort\<close> belongs to the C library, not to the dumper, and \<open>do_grab_sym\<close> takes it as a
  parameter. The C standard asks of the comparison function a value less than, equal to
  or greater than zero as its first argument is to come before, is equal to or is to
  come after the second, the same way whenever two elements are compared; for such a
  function the array ends up in ascending order, the order of elements that compare as
  equal being left open. The runs of the enumerator below use an insertion sort that
  puts an element \<open>x\<close> before the first \<open>y\<close> with \<open>cmp x y \<le> 0\<close>.
\<close>

fun insert_before_ties :: "('a \<Rightarrow> 'a \<Rightarrow> int) \<Rightarrow> 'a \<Rightarrow> 'a list \<Rightarrow> 'a list" where
  "insert_before_ties cmp x [] = [x]"
| "insert_before_ties cmp x (y # ys) =
     (if cmp x y \<le> 0 then x # y # ys else y # insert_before_ties cmp x ys)"

definition stable_insertion_sort :: "('a \<Rightarrow> 'a \<Rightarrow> int) \<Rightarrow> 'a list \<Rightarrow> 'a list" where
  "stable_insertion_sort cmp xs = foldr (insert_before_ties cmp) xs []"

lemma mset_insert_before_ties: "mset (insert_before_ties cmp x ys) = add_mset x (mset ys)"
  by (induction ys) simp_all

lemma mset_stable_insertion_sort: "mset (stable_insertion_sort cmp xs) = mset xs"
  by (induction xs) (simp_all add: stable_insertion_sort_def mset_insert_before_ties)


section \<open>A run of the enumerator\<close>

text \<open>
  An export table of the module \<open>msvcrt\<close> with base 1 and three functions, of which the
  one with ordinal 2 has the name \<open>strlen\<close>.
\<close>

definition example_rva :: "DWORD \<Rightarrow> nat \<Rightarrow> nat option" where
  "example_rva a len = (if a = 0x2000 then Some 0x600 else if a = 0x2008 then Some 0x608 else None)"

definition example_cstr :: "nat \<Rightarrow> string" where
  "example_cstr p = (if p = 0x600 then ''strlen'' else ''strcpy'')"

definition example_export :: export_image where
  "example_export =
     \<lparr>exportDir = Some \<lparr>Base = 1, NumberOfFunctions = 3, NumberOfNames = 1\<rparr>,
      dir_ptr = 0x400, dir_size = 0x60,
      pName = Some [0x2000], pOrdl = Some [1], pFunc = Some [0x1000, 0x1010, 0x1020],
      rva = example_rva, cstr = example_cstr\<rparr>"

definition example_built :: dll_state where
  "example_built =
     \<lparr>dll_symbols = Some [\<lparr>ordinal = 1, symbol = Some ''MSVCRT_1''\<rparr>,
                          \<lparr>ordinal = 2, symbol = Some ''strlen''\<rparr>,
                          \<lparr>ordinal = 3, symbol = Some ''MSVCRT_3''\<rparr>,
                          \<lparr>ordinal = 0, symbol = None\<rparr>],
      dll_current_symbol = Some [\<lparr>ordinal = 1, symbol = Some ''MSVCRT_1''\<rparr>,
                          \<lparr>ordinal = 2, symbol = Some ''strlen''\<rparr>,
                          \<lparr>ordinal = 3, symbol = Some ''MSVCRT_3''\<rparr>,
                          \<lparr>ordinal = 0, symbol = None\<rparr>]\<rparr>"

lemma example_grab:
  "grab_symbols ''msvcrt'' \<lparr>Base = 1, NumberOfFunctions = 3, NumberOfNames = 1\<rparr>
       [0x2000] [1] [0x1000, 0x1010, 0x1020] (\<lambda>name. map_option example_cstr (example_rva name 4))
     = Inr [\<lparr>ordinal = 2, symbol = Some ''strlen''\<rparr>,
            \<lparr>ordinal = 1, symbol = Some ''MSVCRT_1''\<rparr>,
            \<lparr>ordinal = 3, symbol = Some ''MSVCRT_3''\<rparr>]"
  by (simp add: grab_symbols_three_functions_one_named named_symbol_def example_rva_def
      example_cstr_def str_toupper_def toupper_def decimal.simps)

lemma example_do_grab_sym:
  "do_grab_sym stable_insertion_sort None ''msvcrt'' example_export initial_dll_state
     = Inr example_built"
  by (simp add: do_grab_sym_def example_export_def example_grab example_built_def
      stable_insertion_sort_def symbol_cmp_def Let_def)


definition example_at_end :: dll_state where
  "example_at_end = example_built\<lparr>dll_current_symbol := Some [\<lparr>ordinal = 0, symbol = None\<rparr>]\<rparr>"

lemma example_built_reachable: "enumerator_reachable stable_insertion_sort example_built"
  using enumerator_reachable.start example_do_grab_sym
  by (rule enumerator_reachable.grabbed)

lemma example_at_end_reachable: "enumerator_reachable stable_insertion_sort example_at_end"
proof -
  let ?p = "\<lparr>sym_symbol = None, sym_ordinal = 0\<rparr>"
  let ?s1 = "example_built\<lparr>dll_current_symbol := Some [\<lparr>ordinal = 2, symbol = Some ''strlen''\<rparr>,
                          \<lparr>ordinal = 3, symbol = Some ''MSVCRT_3''\<rparr>,
                          \<lparr>ordinal = 0, symbol = None\<rparr>]\<rparr>"
  let ?s2 = "example_built\<lparr>dll_current_symbol := Some [\<lparr>ordinal = 3, symbol = Some ''MSVCRT_3''\<rparr>,
                          \<lparr>ordinal = 0, symbol = None\<rparr>]\<rparr>"
  have "dll_next_symbol example_built ?p
      = Inr (0, ?s1, \<lparr>sym_symbol = Some ''MSVCRT_1'', sym_ordinal = 1\<rparr>)"
    by (simp add: dll_next_symbol_def example_built_def)
  with example_built_reachable have r1: "enumerator_reachable stable_insertion_sort ?s1"
    by (rule enumerator_reachable.stepped)
  have "dll_next_symbol ?s1 ?p = Inr (0, ?s2, \<lparr>sym_symbol = Some ''strlen'', sym_ordinal = 2\<rparr>)"
    by (simp add: dll_next_symbol_def example_built_def)
  with r1 have r2: "enumerator_reachable stable_insertion_sort ?s2"
    by (rule enumerator_reachable.stepped)
  have "dll_next_symbol ?s2 ?p
      = Inr (0, example_at_end, \<lparr>sym_symbol = Some ''MSVCRT_3'', sym_ordinal = 3\<rparr>)"
    by (simp add: dll_next_symbol_def example_built_def example_at_end_def)
  with r2 show ?thesis
    by (rule enumerator_reachable.stepped)
qed

theorem dll_next_symbol_ends_or_advances_witness:
  "dll_next_symbol initial_dll_state \<lparr>sym_symbol = None, sym_ordinal = 0\<rparr>
     = Inr (1, initial_dll_state, \<lparr>sym_symbol = None, sym_ordinal = 0\<rparr>) \<and>
   dll_next_symbol example_at_end \<lparr>sym_symbol = Some ''MSVCRT_3'', sym_ordinal = 3\<rparr>
     = Inr (1, example_at_end, \<lparr>sym_symbol = Some ''MSVCRT_3'', sym_ordinal = 3\<rparr>) \<and>
   dll_next_symbol example_built \<lparr>sym_symbol = None, sym_ordinal = 0\<rparr>
     = Inr (0, example_built\<lparr>dll_current_symbol :=
                   Some [\<lparr>ordinal = 2, symbol = Some ''strlen''\<rparr>,
                         \<lparr>ordinal = 3, symbol = Some ''MSVCRT_3''\<rparr>,
                         \<lparr>ordinal = 0, symbol = None\<rparr>]\<rparr>,
            \<lparr>sym_symbol = Some ''MSVCRT_1'', sym_ordinal = 1\<rparr>)"
proof -
  have perm: "\<forall>xs. mset (stable_insertion_sort symbol_cmp xs) = mset xs"
    by (simp add: mset_stable_insertion_sort)
  note start = dll_next_symbol_ends_or_advances
      [where qsort = stable_insertion_sort, OF perm enumerator_reachable.start]
  note built = dll_next_symbol_ends_or_advances
      [where qsort = stable_insertion_sort, OF perm example_built_reachable]
  note ended = dll_next_symbol_ends_or_advances
      [where qsort = stable_insertion_sort, OF perm example_at_end_reachable]
  have "dll_next_symbol initial_dll_state \<lparr>sym_symbol = None, sym_ordinal = 0\<rparr>
     = Inr (1, initial_dll_state, \<lparr>sym_symbol = None, sym_ordinal = 0\<rparr>)"
    using start [THEN conjunct1] by (simp add: initial_dll_state_def)
  moreover have "dll_next_symbol example_at_end \<lparr>sym_symbol = Some ''MSVCRT_3'', sym_ordinal = 3\<rparr>
     = Inr (1, example_at_end, \<lparr>sym_symbol = Some ''MSVCRT_3'', sym_ordinal = 3\<rparr>)"
    using ended [THEN conjunct1] by (simp add: example_at_end_def)
  moreover have "dll_next_symbol example_built \<lparr>sym_symbol = None, sym_ordinal = 0\<rparr>
     = Inr (0, example_built\<lparr>dll_current_symbol :=
                   Some [\<lparr>ordinal = 2, symbol = Some ''strlen''\<rparr>,
                         \<lparr>ordinal = 3, symbol = Some ''MSVCRT_3''\<rparr>,
                         \<lparr>ordinal = 0, symbol = None\<rparr>]\<rparr>,
            \<lparr>sym_symbol = Some ''MSVCRT_1'', sym_ordinal = 1\<rparr>)"
    using built [THEN conjunct2, THEN conjunct1, rule_format,
        of "\<lparr>ordinal = 1, symbol = Some ''MSVCRT_1''\<rparr>"
           "[\<lparr>ordinal = 2, symbol = Some ''strlen''\<rparr>,
             \<lparr>ordinal = 3, symbol = Some ''MSVCRT_3''\<rparr>,
             \<lparr>ordinal = 0, symbol = None\<rparr>]"]
    by (simp add: example_built_def)
  ultimately show ?thesis by simp
qed

section \<open>String table resources (\<open>dump_string_data\<close>, pe.c lines 1256 to 1280)\<close>

type_synonym WCHAR = "16 word"

text \<open>
  One printed line: the number printed with \<open>%04x\<close> and the characters handed to
  \<open>dump_strW\<close>, which prints them with escapes.
\<close>

datatype string_line = String_line DWORD "WCHAR list"

text \<open>
  The loop \<open>for (i = 0; i < 16 && size; i++)\<close>, \<open>n\<close> iterations from slot \<open>i\<close>. The
  pointer \<open>ptr\<close> is the list of the characters from the pointer on, to the end of the
  image: \<open>*ptr++\<close> takes its head and \<open>ptr += len\<close> drops \<open>len\<close> of them.
\<close>

fun string_slots :: "WCHAR list \<Rightarrow> DWORD \<Rightarrow> DWORD \<Rightarrow> nat \<Rightarrow> nat \<Rightarrow> error + string_line list" where
  "string_slots ptr sz rid 0 i = Inr []"
| "string_slots ptr sz rid (Suc n) i =
     (if sz = 0 then Inr []
      else (case ptr of [] \<Rightarrow> Inl Out_of_bounds
            | w # ptr' \<Rightarrow>
                (let len = (if ucast w \<ge> sz then sz else ucast w);
                     sz' = (if ucast w \<ge> sz then 0 else sz - (ucast w + 1))
                 in if len \<noteq> 0
                    then if unat len \<le> length ptr'
                         then (case string_slots (drop (unat len) ptr') sz' rid n (Suc i) of
                                 Inl e \<Rightarrow> Inl e
                               | Inr rest \<Rightarrow>
                                   Inr (String_line ((rid - 1) * 16 + of_nat i) (take (unat len) ptr')
                                        # rest))
                         else Inl Out_of_bounds
                    else string_slots ptr' sz' rid n (Suc i))))"

definition dump_string_data :: "WCHAR list option \<Rightarrow> DWORD \<Rightarrow> DWORD \<Rightarrow> error + string_line list" where
  "dump_string_data ptr sz rid =
     (if sz = 0 then Inr []
      else (case ptr of None \<Rightarrow> Inl Null_dereference
            | Some p \<Rightarrow> string_slots p sz rid 16 0))"

text \<open>
  The specification's words: a block of length-prefixed UTF-16 strings, and the
  numbered lines of its non-empty strings, slot \<open>k\<close> of the block of ordinal \<open>id\<close>
  having the number \<open>(id - 1) * 16 + k\<close>.
\<close>

definition string_block :: "WCHAR list list \<Rightarrow> WCHAR list" where
  "string_block strs = concat (map (\<lambda>s. of_nat (length s) # s) strs)"

definition numbered_strings :: "DWORD \<Rightarrow> nat \<Rightarrow> WCHAR list list \<Rightarrow> string_line list" where
  "numbered_strings rid i strs =
     map (\<lambda>k. String_line ((rid - 1) * 16 + of_nat (i + k)) (strs ! k))
       (filter (\<lambda>k. strs ! k \<noteq> []) [0..<length strs])"

lemma string_block_Cons: "string_block (s # strs) = of_nat (length s) # s @ string_block strs"
  by (simp add: string_block_def)

lemma numbered_strings_Nil: "numbered_strings rid i [] = []"
  by (simp add: numbered_strings_def)

lemma numbered_strings_Cons:
  "numbered_strings rid i (s # strs) =
     (if s \<noteq> [] then [String_line ((rid - 1) * 16 + of_nat i) s] else [])
       @ numbered_strings rid (Suc i) strs"
proof -
  have "[0..<length (s # strs)] = 0 # map Suc [0..<length strs]"
    by (simp add: upt_conv_Cons map_Suc_upt del: upt_Suc)
  then show ?thesis
    by (simp add: numbered_strings_def filter_map comp_def del: upt_Suc)
qed

lemma string_slots_block:
  "length strs \<le> n \<Longrightarrow> \<forall>s \<in> set strs. length s < 65536
   \<Longrightarrow> length (string_block strs) \<le> unat sz
   \<Longrightarrow> length strs = n \<or> unat sz = length (string_block strs)
   \<Longrightarrow> string_slots (string_block strs @ rest) sz rid n i = Inr (numbered_strings rid i strs)"
proof (induction strs arbitrary: n i sz)
  case Nil
  then show ?case
    by (cases n) (auto simp add: string_block_def numbered_strings_Nil unat_eq_0)
next
  case (Cons s strs)
  from Cons.prems(1) obtain m where n: "n = Suc m" and m: "length strs \<le> m"
    by (cases n) auto
  let ?w = "of_nat (length s) :: WCHAR"
  let ?len = "ucast ?w :: DWORD"
  have ls: "length s < 65536" using Cons.prems(2) by simp
  have total: "Suc (length s) + length (string_block strs) \<le> unat sz"
    using Cons.prems(3) by (simp add: string_block_Cons)
  have ulen: "unat ?len = length s"
    using ls by (simp add: unsigned_ucast_eq unat_of_nat take_bit_eq_mod)
  have lt: "?len < sz"
    using total ulen by (simp add: word_less_nat_alt)
  then have size0: "sz \<noteq> 0" by auto
  have len1: "unat (?len + 1) = Suc (length s)"
    using ls ulen by (simp add: unat_word_ariths)
  have le1: "?len + 1 \<le> sz"
    using total len1 by (simp add: word_le_nat_alt)
  have sz': "unat (sz - (?len + 1)) = unat sz - Suc (length s)"
    using le1 len1 by (simp add: unat_sub)
  have len0: "(?len = 0) = (s = [])"
    using ulen by (metis length_0_conv unat_eq_0)
  have ih: "string_slots (string_block strs @ rest) (sz - (?len + 1)) rid m (Suc i)
      = Inr (numbered_strings rid (Suc i) strs)"
  proof (rule Cons.IH [OF m])
    show "\<forall>s \<in> set strs. length s < 65536" using Cons.prems(2) by simp
    show "length (string_block strs) \<le> unat (sz - (?len + 1))"
      using total sz' by simp
    show "length strs = m \<or> unat (sz - (?len + 1)) = length (string_block strs)"
      using Cons.prems(4) n sz' total by (auto simp add: string_block_Cons)
  qed
  show ?case
  proof (cases "s = []")
    case True
    with ih lt size0 len0 show ?thesis
      by (simp add: n string_block_Cons numbered_strings_Cons not_le [symmetric] Let_def)
  next
    case False
    with ih lt size0 len0 ulen show ?thesis
      by (simp add: n string_block_Cons numbered_strings_Cons not_le [symmetric] Let_def)
  qed
qed


text \<open>
  Claim C9. For a string table leaf that holds a block of up to 16 length-prefixed
  strings (all 16, or fewer when the size ends with the block), \<open>dump_string_data\<close>
  prints one line for each non-empty string, in slot order, and the string of slot \<open>k\<close>
  in the block of ordinal \<open>id\<close> has the number \<open>(id - 1) * 16 + k\<close> (unsigned 32-bit
  arithmetic). For \<open>id = 2\<close> and strings in the slots 0 and 5 the numbers are 16 and 21.
\<close>

theorem string_table_line_numbers:
  assumes "length strs \<le> 16" and "\<forall>s \<in> set strs. length s < 65536"
    and "length (string_block strs) \<le> unat sz"
    and "length strs = 16 \<or> unat sz = length (string_block strs)"
  shows "dump_string_data (Some (string_block strs @ rest)) sz rid =
           Inr (map (\<lambda>k. String_line ((rid - 1) * 16 + of_nat k) (strs ! k))
                  (filter (\<lambda>k. strs ! k \<noteq> []) [0..<length strs]))"
proof (cases "sz = 0")
  case True
  with assms(3) have "string_block strs = []" by simp
  then have "strs = []" by (cases strs) (simp_all add: string_block_Cons)
  with True show ?thesis by (simp add: dump_string_data_def)
next
  case False
  have "string_slots (string_block strs @ rest) sz rid 16 0 = Inr (numbered_strings rid 0 strs)"
    using assms by (rule string_slots_block)
  with False show ?thesis
    by (simp add: dump_string_data_def numbered_strings_def)
qed

definition example_strings :: "WCHAR list list" where
  "example_strings =
     [[0x48, 0x69], [], [], [], [], [0x4F, 0x4B], [], [], [], [], [], [], [], [], [], []]"

theorem string_table_line_numbers_witness:
  "dump_string_data
     (Some ([2, 0x48, 0x69, 0, 0, 0, 0, 2, 0x4F, 0x4B, 0, 0, 0, 0, 0, 0, 0, 0, 0, 0] @ [7, 7]))
     40 2
     = Inr [String_line 16 [0x48, 0x69], String_line 21 [0x4F, 0x4B]]"
proof -
  have block: "string_block example_strings
      = [2, 0x48, 0x69, 0, 0, 0, 0, 2, 0x4F, 0x4B, 0, 0, 0, 0, 0, 0, 0, 0, 0, 0]"
    by (simp add: string_block_def example_strings_def)
  have hyps: "length example_strings \<le> 16" "\<forall>s \<in> set example_strings. length s < 65536"
    "length (string_block example_strings) \<le> unat (40 :: DWORD)"
    "length example_strings = 16 \<or> unat (40 :: DWORD) = length (string_block example_strings)"
    by (simp_all add: block) (simp_all add: example_strings_def)
  have "filter (\<lambda>k. example_strings ! k \<noteq> []) [0..<length example_strings] = [0, 5]"
    by (simp add: example_strings_def upt_rec)
  then show ?thesis
    using string_table_line_numbers [OF hyps, of "[7, 7]" 2]
    by (simp add: block) (simp add: example_strings_def)
qed

section \<open>The image as bytes\<close>

text \<open>
  The decoders below read the mapped file through pointers. The image is the list of its
  bytes and a pointer is an offset into it; a read that leaves the image is an error.
  Numbers of more than one byte are little-endian, the host's byte order.
\<close>

type_synonym image = "BYTE list"

definition rd8 :: "image \<Rightarrow> nat \<Rightarrow> error + BYTE" where
  "rd8 img p = (if p < length img then Inr (img ! p) else Inl Out_of_bounds)"

definition le16 :: "image \<Rightarrow> nat \<Rightarrow> USHORT" where
  "le16 img p = ucast (img ! p) OR push_bit 8 (ucast (img ! (p + 1)))"

definition le32 :: "image \<Rightarrow> nat \<Rightarrow> DWORD" where
  "le32 img p = ucast (le16 img p) OR push_bit 16 (ucast (le16 img (p + 2)))"

definition rd16 :: "image \<Rightarrow> nat \<Rightarrow> error + USHORT" where
  "rd16 img p = (if p + 2 \<le> length img then Inr (le16 img p) else Inl Out_of_bounds)"

definition rd32 :: "image \<Rightarrow> nat \<Rightarrow> error + DWORD" where
  "rd32 img p = (if p + 4 \<le> length img then Inr (le32 img p) else Inl Out_of_bounds)"

section \<open>Base relocations (\<open>dump_dir_reloc\<close>, pe.c lines 993 to 1037)\<close>

datatype reloc_line = Relocations | Reloc_page DWORD | Reloc_entry USHORT string

definition reloc_names :: "string list" where
  "reloc_names =
     [''BASED_ABSOLUTE'', ''BASED_HIGH'', ''BASED_LOW'', ''BASED_HIGHLOW'', ''BASED_HIGHADJ'',
      ''BASED_MIPS_JMPADDR'', ''BASED_SECTION'', ''BASED_REL'', ''unknown 8'',
      ''BASED_IA64_IMM64'', ''BASED_DIR64'', ''BASED_HIGH3ADJ'', ''unknown 12'', ''unknown 13'',
      ''unknown 14'', ''unknown 15'']"

text \<open>
  The body of the inner loop: \<open>offset = *relocs & 0xfff\<close>, \<open>type = *relocs >> 12\<close> and the
  line \<open>off %04x type %s\<close> with \<open>names[type]\<close>.
\<close>

definition reloc_entry :: "USHORT \<Rightarrow> reloc_line" where
  "reloc_entry w = Reloc_entry (w AND 0xfff) (reloc_names ! unat (drop_bit 12 w))"

text \<open>The inner loop \<open>while (i--)\<close>; the result holds the pointer \<open>relocs\<close> after it.\<close>

fun reloc_entries :: "image \<Rightarrow> nat \<Rightarrow> nat \<Rightarrow> error + (reloc_line list \<times> nat)" where
  "reloc_entries img relocs 0 = Inr ([], relocs)"
| "reloc_entries img relocs (Suc i) =
     (case rd16 img relocs of Inl e \<Rightarrow> Inl e
      | Inr w \<Rightarrow>
          (case reloc_entries img (relocs + 2) i of Inl e \<Rightarrow> Inl e
           | Inr (lines, relocs') \<Rightarrow> Inr (reloc_entry w # lines, relocs')))"

lemma reloc_entries_pointer:
  "reloc_entries img relocs i = Inr (lines, relocs') \<Longrightarrow> relocs' = relocs + 2 * i"
proof (induction i arbitrary: relocs lines)
  case 0
  then show ?case by simp
next
  case (Suc i)
  from Suc.prems obtain rest where "reloc_entries img (relocs + 2) i = Inr (rest, relocs')"
    by (auto split: sum.splits)
  from Suc.IH [OF this] show ?case by simp
qed

text \<open>
  The number of entries of a block, \<open>i = (rel->SizeOfBlock - sizeof(*rel)) / sizeof(USHORT)\<close>:
  the difference and the quotient are of type \<open>size_t\<close>, and the result is cut to the
  \<open>unsigned int\<close> \<open>i\<close>.
\<close>

definition block_entries :: "DWORD \<Rightarrow> nat" where
  "block_entries SizeOfBlock = unat (ucast (drop_bit 1 (ucast SizeOfBlock - (8 :: ulong))) :: DWORD)"

text \<open>
  The outer loop \<open>while (rel < end - 1 && rel->SizeOfBlock)\<close>. \<open>end - 1\<close> is one block
  header (8 bytes) before \<open>end\<close>, so \<open>rel < end - 1\<close> says that more than 8 bytes remain.
\<close>

function reloc_blocks :: "image \<Rightarrow> nat \<Rightarrow> nat \<Rightarrow> error + reloc_line list" where
  "reloc_blocks img rel dir_end =
     (if rel + 8 < dir_end
      then (case rd32 img (rel + 4) of Inl e \<Rightarrow> Inl e
            | Inr SizeOfBlock \<Rightarrow>
                if SizeOfBlock = 0 then Inr []
                else (case rd32 img rel of Inl e \<Rightarrow> Inl e
                      | Inr page \<Rightarrow>
                          (case reloc_entries img (rel + 8) (block_entries SizeOfBlock) of
                             Inl e \<Rightarrow> Inl e
                           | Inr (lines, relocs) \<Rightarrow>
                               (case reloc_blocks img relocs dir_end of Inl e \<Rightarrow> Inl e
                                | Inr rest \<Rightarrow> Inr (Reloc_page page # lines @ rest)))))
      else Inr [])"
  by pat_completeness auto
termination
proof (relation "measure (\<lambda>(img, rel, dir_end). dir_end - rel)")
  show "wf (measure (\<lambda>(img, rel, dir_end). dir_end - rel))" by simp
next
  fix img rel dir_end SizeOfBlock page x lines relocs
  assume "rel + 8 < dir_end"
    and "reloc_entries img (rel + 8) (block_entries SizeOfBlock) = Inr x"
    and "(lines, relocs) = x"
  then have "relocs = rel + 8 + 2 * block_entries SizeOfBlock"
    using reloc_entries_pointer by metis
  with \<open>rel + 8 < dir_end\<close>
  show "((img, relocs, dir_end), (img, rel, dir_end)) \<in> measure (\<lambda>(img, rel, dir_end). dir_end - rel)"
    by simp
qed

declare reloc_blocks.simps [simp del]

definition dump_dir_reloc :: "image \<Rightarrow> nat option \<Rightarrow> DWORD \<Rightarrow> error + reloc_line list" where
  "dump_dir_reloc img rel sz =
     (case rel of None \<Rightarrow> Inr []
      | Some p \<Rightarrow>
          (case reloc_blocks img p (p + unat sz) of Inl e \<Rightarrow> Inl e
           | Inr lines \<Rightarrow> Inr (Relocations # lines)))"


section \<open>Properties of the relocation dumper\<close>

lemma reloc_entries_read:
  "relocs + 2 * n \<le> length img
   \<Longrightarrow> reloc_entries img relocs n
       = Inr (map (\<lambda>k. reloc_entry (le16 img (relocs + 2 * k))) [0..<n], relocs + 2 * n)"
proof (induction n arbitrary: relocs)
  case 0
  then show ?case by simp
next
  case (Suc n)
  have first: "rd16 img relocs = Inr (le16 img relocs)"
    using Suc.prems by (simp add: rd16_def)
  have rest: "reloc_entries img (relocs + 2) n
      = Inr (map (\<lambda>k. reloc_entry (le16 img (relocs + 2 + 2 * k))) [0..<n], relocs + 2 + 2 * n)"
    using Suc.prems by (intro Suc.IH) simp
  have "map (\<lambda>k. reloc_entry (le16 img (relocs + 2 * k))) [0..<Suc n]
      = reloc_entry (le16 img relocs) # map (\<lambda>k. reloc_entry (le16 img (relocs + 2 + 2 * k))) [0..<n]"
    by (simp add: upt_conv_Cons map_Suc_upt [symmetric] del: upt_Suc)
  with first rest show ?case by simp
qed

lemma block_entries_eq:
  assumes "8 \<le> SizeOfBlock"
  shows "block_entries SizeOfBlock = (unat SizeOfBlock - 8) div 2"
proof -
  let ?s = "ucast SizeOfBlock :: ulong"
  have lt32: "unat SizeOfBlock < 2 ^ 32"
    using unsigned_less [of SizeOfBlock] by simp
  then have "unat SizeOfBlock < 2 ^ 64"
    by (rule order_less_trans) simp
  then have u: "unat ?s = unat SizeOfBlock"
    by (simp add: unsigned_ucast_eq take_bit_nat_eq_self)
  have "8 \<le> unat SizeOfBlock"
    using assms by (simp add: word_le_nat_alt)
  then have "(8 :: ulong) \<le> ?s"
    using u by (simp add: word_le_nat_alt)
  then have d: "unat (?s - 8) = unat SizeOfBlock - 8"
    using u by (simp add: unat_sub)
  have h: "unat (drop_bit 1 (?s - 8)) = (unat SizeOfBlock - 8) div 2"
    by (simp only: unat_drop_bit_eq d) (simp add: drop_bit_eq_div)
  from lt32 have "(unat SizeOfBlock - 8) div 2 < 2 ^ 32" by simp
  then show ?thesis
    by (simp only: block_entries_def unsigned_ucast_eq h) (simp add: take_bit_nat_eq_self)
qed


lemma reloc_offset: "w AND 0xfff = take_bit 12 w" for w :: USHORT
  by (simp add: take_bit_eq_mask mask_eq_exp_minus_1)

lemma reloc_type_named: "unat (drop_bit 12 w) < length reloc_names" for w :: USHORT
proof -
  have "unat (drop_bit 12 w) = unat w div 2 ^ 12"
    by (simp only: unat_drop_bit_eq) (simp add: drop_bit_eq_div)
  moreover have "unat w < 2 ^ 16"
    using unsigned_less [of w] by simp
  ultimately have "unat (drop_bit 12 w) < 16" by simp
  then show ?thesis by (simp add: reloc_names_def)
qed

lemma reloc_blocks_stop: "dir_end \<le> rel + 8 \<Longrightarrow> reloc_blocks img rel dir_end = Inr []"
  by (simp add: reloc_blocks.simps)

lemma reloc_blocks_zero:
  "rel + 8 < dir_end \<Longrightarrow> dir_end \<le> length img \<Longrightarrow> le32 img (rel + 4) = 0
   \<Longrightarrow> reloc_blocks img rel dir_end = Inr []"
  by (simp add: reloc_blocks.simps [of img rel] rd32_def)

lemma reloc_blocks_step:
  assumes more: "rel + 8 < dir_end" and inside: "dir_end \<le> length img"
    and sob: "8 \<le> le32 img (rel + 4)" and block: "rel + unat (le32 img (rel + 4)) \<le> length img"
  shows "reloc_blocks img rel dir_end =
           (case reloc_blocks img (rel + 8 + 2 * ((unat (le32 img (rel + 4)) - 8) div 2)) dir_end of
              Inl e \<Rightarrow> Inl e
            | Inr rest \<Rightarrow>
                Inr (Reloc_page (le32 img rel)
                     # map (\<lambda>k. reloc_entry (le16 img (rel + 8 + 2 * k)))
                         [0..<(unat (le32 img (rel + 4)) - 8) div 2]
                     @ rest))"
proof -
  let ?n = "(unat (le32 img (rel + 4)) - 8) div 2"
  have n: "block_entries (le32 img (rel + 4)) = ?n"
    using sob by (rule block_entries_eq)
  have "8 \<le> unat (le32 img (rel + 4))"
    using sob by (simp add: word_le_nat_alt)
  then have "rel + 8 + 2 * ?n \<le> length img"
    using block by simp
  then have entries: "reloc_entries img (rel + 8) ?n
      = Inr (map (\<lambda>k. reloc_entry (le16 img (rel + 8 + 2 * k))) [0..<?n], rel + 8 + 2 * ?n)"
    by (rule reloc_entries_read)
  have nz: "le32 img (rel + 4) \<noteq> 0"
    using sob by auto
  have reads: "rd32 img (rel + 4) = Inr (le32 img (rel + 4))" "rd32 img rel = Inr (le32 img rel)"
    using more inside by (simp_all add: rd32_def)
  show ?thesis
    by (subst reloc_blocks.simps) (simp add: more reads nz n entries)
qed


text \<open>
  Claim C4, as amended. Every 16-bit entry is printed with its low 12 bits as the offset
  and with the name that the table of 16 names gives its top 4 bits: type 3 is
  \<open>BASED_HIGHLOW\<close> and type 10 is \<open>BASED_DIR64\<close>. The walk over the blocks stops when
  at most 8 bytes, the size of a block header, remain before the end of the directory,
  and when the \<open>SizeOfBlock\<close> of the block is 0; at a block of at least 8 bytes that
  lies in the image, with more than 8 bytes remaining, it prints the page and the
  entries of the block and goes on behind them.
\<close>

theorem relocation_entries_and_block_walk:
  "(reloc_entry w = Reloc_entry (take_bit 12 w) (reloc_names ! unat (drop_bit 12 w)) \<and>
    unat (drop_bit 12 w) < length reloc_names) \<and>
   (drop_bit 12 w = 3 \<longrightarrow> reloc_entry w = Reloc_entry (take_bit 12 w) ''BASED_HIGHLOW'') \<and>
   (drop_bit 12 w = 10 \<longrightarrow> reloc_entry w = Reloc_entry (take_bit 12 w) ''BASED_DIR64'') \<and>
   (dir_end \<le> rel + 8 \<longrightarrow> reloc_blocks img rel dir_end = Inr []) \<and>
   (rel + 8 < dir_end \<and> dir_end \<le> length img \<and> le32 img (rel + 4) = 0
      \<longrightarrow> reloc_blocks img rel dir_end = Inr []) \<and>
   (rel + 8 < dir_end \<and> dir_end \<le> length img \<and> 8 \<le> le32 img (rel + 4) \<and>
    rel + unat (le32 img (rel + 4)) \<le> length img
      \<longrightarrow> reloc_blocks img rel dir_end =
           (case reloc_blocks img (rel + 8 + 2 * ((unat (le32 img (rel + 4)) - 8) div 2)) dir_end of
              Inl e \<Rightarrow> Inl e
            | Inr rest \<Rightarrow>
                Inr (Reloc_page (le32 img rel)
                     # map (\<lambda>k. reloc_entry (le16 img (rel + 8 + 2 * k)))
                         [0..<(unat (le32 img (rel + 4)) - 8) div 2]
                     @ rest)))"
proof (intro conjI impI)
  show "reloc_entry w = Reloc_entry (take_bit 12 w) (reloc_names ! unat (drop_bit 12 w))"
    by (simp only: reloc_entry_def reloc_offset)
  show "unat (drop_bit 12 w) < length reloc_names"
    by (rule reloc_type_named)
  show "reloc_entry w = Reloc_entry (take_bit 12 w) ''BASED_HIGHLOW''" if "drop_bit 12 w = 3"
    using that by (simp only: reloc_entry_def reloc_offset) (simp add: reloc_names_def)
  show "reloc_entry w = Reloc_entry (take_bit 12 w) ''BASED_DIR64''" if "drop_bit 12 w = 10"
    using that by (simp only: reloc_entry_def reloc_offset) (simp add: reloc_names_def)
  show "reloc_blocks img rel dir_end = Inr []" if "dir_end \<le> rel + 8"
    using that by (rule reloc_blocks_stop)
  show "reloc_blocks img rel dir_end = Inr []"
    if "rel + 8 < dir_end \<and> dir_end \<le> length img \<and> le32 img (rel + 4) = 0"
    using that by (simp add: reloc_blocks_zero)
  show "reloc_blocks img rel dir_end =
           (case reloc_blocks img (rel + 8 + 2 * ((unat (le32 img (rel + 4)) - 8) div 2)) dir_end of
              Inl e \<Rightarrow> Inl e
            | Inr rest \<Rightarrow>
                Inr (Reloc_page (le32 img rel)
                     # map (\<lambda>k. reloc_entry (le16 img (rel + 8 + 2 * k)))
                         [0..<(unat (le32 img (rel + 4)) - 8) div 2]
                     @ rest))"
    if "rel + 8 < dir_end \<and> dir_end \<le> length img \<and> 8 \<le> le32 img (rel + 4) \<and>
        rel + unat (le32 img (rel + 4)) \<le> length img"
    using that by (intro reloc_blocks_step) simp_all
qed

text \<open>
  The block of the specification: page \<open>0x1000\<close>, \<open>SizeOfBlock\<close> 12, and the entries
  \<open>0x3004\<close> (offset \<open>0x004\<close>, type 3) and \<open>0xA100\<close> (offset \<open>0x100\<close>, type 10).
\<close>

definition two_entry_block :: image where
  "two_entry_block = [0x00, 0x10, 0, 0, 0x0C, 0, 0, 0, 0x04, 0x30, 0x00, 0xA1]"

theorem relocation_entries_and_block_walk_witness:
  "dump_dir_reloc two_entry_block (Some 0) 12
     = Inr [Relocations, Reloc_page 0x1000,
            Reloc_entry 0x004 ''BASED_HIGHLOW'', Reloc_entry 0x100 ''BASED_DIR64'']"
proof -
  have sob: "le32 two_entry_block 4 = 12" and page: "le32 two_entry_block 0 = 0x1000"
    and e0: "le16 two_entry_block 8 = 0x3004"
    and e1: "le16 two_entry_block 10 = 0xA100"
    by (simp_all add: le32_def le16_def two_entry_block_def)
  have len: "length two_entry_block = 12"
    by (simp add: two_entry_block_def)
  note at_end = relocation_entries_and_block_walk [of _ 12 12 two_entry_block]
  note first = relocation_entries_and_block_walk [of "0x3004" 12 0 two_entry_block]
  note second = relocation_entries_and_block_walk [of "0xA100" 12 0 two_entry_block]
  have stop: "reloc_blocks two_entry_block 12 12 = Inr []"
    using at_end by simp
  have highlow: "reloc_entry 0x3004 = Reloc_entry 0x004 ''BASED_HIGHLOW''"
    using first by (simp add: reloc_names_def)
  have dir64: "reloc_entry 0xA100 = Reloc_entry 0x100 ''BASED_DIR64''"
    using second by (simp add: reloc_names_def)
  have "reloc_blocks two_entry_block 0 12 =
      (case reloc_blocks two_entry_block (0 + 8 + 2 * ((unat (le32 two_entry_block (0 + 4)) - 8) div 2)) 12 of
              Inl e \<Rightarrow> Inl e
            | Inr rest \<Rightarrow>
                Inr (Reloc_page (le32 two_entry_block 0)
                     # map (\<lambda>k. reloc_entry (le16 two_entry_block (0 + 8 + 2 * k)))
                         [0..<(unat (le32 two_entry_block (0 + 4)) - 8) div 2]
                     @ rest))"
    using first [THEN conjunct2, THEN conjunct2, THEN conjunct2, THEN conjunct2, THEN conjunct2]
    by (simp add: sob len)
  then have "reloc_blocks two_entry_block 0 12 =
      Inr [Reloc_page 0x1000, Reloc_entry 0x004 ''BASED_HIGHLOW'', Reloc_entry 0x100 ''BASED_DIR64'']"
    by (simp add: sob stop page upt_rec e0 e1 highlow dir64)
  then show ?thesis
    by (simp add: dump_dir_reloc_def)
qed

text \<open>
  The claim as stated fails in two directories. In the first, of 16 bytes, the first
  block has \<open>SizeOfBlock = 0\<close>: the walk stops with 16 bytes left. In the second, of 18
  bytes, a block of one entry is followed by a block that is only a header: the walk
  stops with the 8 bytes of that header left, and its page \<open>0x2000\<close> is not printed.
\<close>

definition zero_size_block :: image where
  "zero_size_block = [0x00, 0x10, 0, 0, 0, 0, 0, 0, 0x00, 0x20, 0, 0, 0x08, 0, 0, 0]"

definition header_only_block :: image where
  "header_only_block =
     [0x00, 0x10, 0, 0, 0x0A, 0, 0, 0, 0x04, 0x30, 0x00, 0x20, 0, 0, 0x08, 0, 0, 0]"

theorem relocation_walk_stops_with_a_header_left:
  "length zero_size_block = 16 \<and>
   dump_dir_reloc zero_size_block (Some 0) 16 = Inr [Relocations] \<and>
   length header_only_block = 18 \<and>
   dump_dir_reloc header_only_block (Some 0) 18
     = Inr [Relocations, Reloc_page 0x1000, Reloc_entry 0x004 ''BASED_HIGHLOW'']"
proof -
  have "reloc_blocks zero_size_block 0 16 = Inr []"
    by (rule reloc_blocks_zero) (simp_all add: zero_size_block_def le32_def le16_def)
  moreover have "reloc_blocks header_only_block 0 18
      = Inr [Reloc_page 0x1000, Reloc_entry 0x004 ''BASED_HIGHLOW'']"
  proof -
    have sob: "le32 header_only_block 4 = 10" and page: "le32 header_only_block 0 = 0x1000"
      and e0: "le16 header_only_block 8 = 0x3004"
      by (simp_all add: le32_def le16_def header_only_block_def)
    have len: "length header_only_block = 18"
      by (simp add: header_only_block_def)
    have stop: "reloc_blocks header_only_block 10 18 = Inr []"
      by (rule reloc_blocks_stop) simp
    have "reloc_blocks header_only_block 0 18 =
           (case reloc_blocks header_only_block (0 + 8 + 2 * ((unat (le32 header_only_block (0 + 4)) - 8) div 2)) 18 of
              Inl e \<Rightarrow> Inl e
            | Inr rest \<Rightarrow>
                Inr (Reloc_page (le32 header_only_block 0)
                     # map (\<lambda>k. reloc_entry (le16 header_only_block (0 + 8 + 2 * k)))
                         [0..<(unat (le32 header_only_block (0 + 4)) - 8) div 2]
                     @ rest))"
      by (rule reloc_blocks_step) (simp_all add: sob len)
    then show ?thesis
      by (simp add: sob stop page e0 reloc_entry_def reloc_names_def)
  qed
  ultimately show ?thesis
    by (simp add: dump_dir_reloc_def) (simp add: zero_size_block_def header_only_block_def)
qed

section \<open>Unwind information (\<open>dump_x86_64_unwind_info\<close>, pe.c lines 540 to 689)\<close>











section \<open>Properties of the unwind decoder\<close>
























section \<open>Imports (\<open>dump_dir_imported_functions\<close>, pe.c lines 710 to 798)\<close>

definition le64 :: "image \<Rightarrow> nat \<Rightarrow> ulong" where
  "le64 img p = ucast (le32 img p) OR push_bit 32 (ucast (le32 img (p + 4)))"

definition rd64 :: "image \<Rightarrow> nat \<Rightarrow> error + ulong" where
  "rd64 img p = (if p + 8 \<le> length img then Inr (le64 img p) else Inl Out_of_bounds)"

text \<open>The string that \<open>%s\<close> prints: the bytes from a pointer up to the first zero.\<close>

function cstring :: "image \<Rightarrow> nat \<Rightarrow> error + BYTE list" where
  "cstring img p =
     (case rd8 img p of Inl e \<Rightarrow> Inl e
      | Inr c \<Rightarrow>
          if c = 0 then Inr []
          else (case cstring img (p + 1) of Inl e \<Rightarrow> Inl e | Inr s \<Rightarrow> Inr (c # s)))"
  by pat_completeness auto
termination
  by (relation "measure (\<lambda>(img, p). length img - p)")
     (auto simp add: rd8_def split: if_splits)

declare cstring.simps [simp del]

text \<open>
  The printed lines: the size of the table; for a descriptor its offset in the file,
  the module name (\<open>None\<close> when \<open>RVA\<close> gives \<open>NULL\<close>) and the fields
  \<open>OriginalFirstThunk\<close>, \<open>TimeDateStamp\<close>, \<open>ForwarderChain\<close> and \<open>FirstThunk\<close>; the message
  that the thunk data cannot be read; for a thunk its ordinal, or its hint, name and
  address, or the message that the name cannot be read.
\<close>

datatype import_line =
  Import_table_size DWORD
  | Import_descriptor nat "BYTE list option" DWORD DWORD DWORD DWORD
  | Cant_grab_thunk_data
  | By_ordinal DWORD
  | By_name USHORT "BYTE list" DWORD
  | Cant_grab_import_by_name

text \<open>
  Modelled from the spec: the macros \<open>IMAGE_SNAP_BY_ORDINAL32\<close> and \<open>IMAGE_ORDINAL32\<close> (and
  those for 64 bits) are in a header that is not among the sources. A thunk is by ordinal
  when the top bit of its field is set, bit 31 for 32-bit thunks and bit 63 for 64-bit
  ones; its ordinal is taken as the low 16 bits.

  \<open>dump_image_thunk_data32\<close>, from the thunk at \<open>il\<close>. An \<open>IMAGE_IMPORT_BY_NAME\<close> is the
  16-bit hint and then the name.
\<close>

function dump_image_thunk_data32 ::
  "image \<Rightarrow> IMAGE_SECTION_HEADER list \<Rightarrow> nat \<Rightarrow> DWORD \<Rightarrow> error + import_line list"
where
  "dump_image_thunk_data32 img sectHead il offset =
     (case rd32 img il of Inl e \<Rightarrow> Inl e
      | Inr Ordinal \<Rightarrow>
          if Ordinal = 0 then Inr []
          else (case (if Ordinal AND 0x80000000 \<noteq> 0 then Inr (By_ordinal (Ordinal AND 0xffff))
                      else (case RVA (PRD (length img)) sectHead (ucast (Ordinal - offset)) 4 of
                              None \<Rightarrow> Inr Cant_grab_import_by_name
                            | Some iibn \<Rightarrow>
                               (case rd16 img iibn of Inl e \<Rightarrow> Inl e | Inr hint \<Rightarrow>
                               (case cstring img (iibn + 2) of Inl e \<Rightarrow> Inl e
                                | Inr name \<Rightarrow> Inr (By_name hint name Ordinal))))) of
                  Inl e \<Rightarrow> Inl e
                | Inr line \<Rightarrow>
                    (case dump_image_thunk_data32 img sectHead (il + 4) offset of
                       Inl e \<Rightarrow> Inl e
                     | Inr rest \<Rightarrow> Inr (line # rest))))"
  by pat_completeness auto
termination
  by (relation "measure (\<lambda>(img, sectHead, il, offset). length img - il)")
     (auto simp add: rd32_def split: if_splits)

declare dump_image_thunk_data32.simps [simp del]

text \<open>\<open>dump_image_thunk_data64\<close>: thunks of 64 bits, by ordinal when bit 63 is set.\<close>

function dump_image_thunk_data64 ::
  "image \<Rightarrow> IMAGE_SECTION_HEADER list \<Rightarrow> nat \<Rightarrow> error + import_line list"
where
  "dump_image_thunk_data64 img sectHead il =
     (case rd64 img il of Inl e \<Rightarrow> Inl e
      | Inr Ordinal \<Rightarrow>
          if Ordinal = 0 then Inr []
          else (case (if Ordinal AND 0x8000000000000000 \<noteq> 0
                      then Inr (By_ordinal (ucast (Ordinal AND 0xffff)))
                      else (case RVA (PRD (length img)) sectHead (ucast (ucast Ordinal :: DWORD)) 4 of
                              None \<Rightarrow> Inr Cant_grab_import_by_name
                            | Some iibn \<Rightarrow>
                               (case rd16 img iibn of Inl e \<Rightarrow> Inl e | Inr hint \<Rightarrow>
                               (case cstring img (iibn + 2) of Inl e \<Rightarrow> Inl e
                                | Inr name \<Rightarrow> Inr (By_name hint name (ucast Ordinal)))))) of
                  Inl e \<Rightarrow> Inl e
                | Inr line \<Rightarrow>
                    (case dump_image_thunk_data64 img sectHead (il + 8) of
                       Inl e \<Rightarrow> Inl e
                     | Inr rest \<Rightarrow> Inr (line # rest))))"
  by pat_completeness auto
termination
  by (relation "measure (\<lambda>(img, sectHead, il). length img - il)")
     (auto simp add: rd64_def split: if_splits)

declare dump_image_thunk_data64.simps [simp del]

text \<open>
  The thunk table of a descriptor, lines 781 to 783:
  \<open>il = (OriginalFirstThunk != 0) ? RVA(OriginalFirstThunk, 4) : RVA(FirstThunk, 4)\<close>.
\<close>

definition import_thunks ::
  "image \<Rightarrow> IMAGE_SECTION_HEADER list \<Rightarrow> DWORD \<Rightarrow> DWORD \<Rightarrow> nat option"
where
  "import_thunks img sectHead OriginalFirstThunk FirstThunk =
     (if OriginalFirstThunk \<noteq> 0
      then RVA (PRD (length img)) sectHead (ucast OriginalFirstThunk) 4
      else RVA (PRD (length img)) sectHead (ucast FirstThunk) 4)"

text \<open>
  Lines 785 to 794: the message when \<open>il\<close> is \<open>NULL\<close>, else the thunks in the width of
  the image.
\<close>

definition thunk_lines ::
  "image \<Rightarrow> IMAGE_SECTION_HEADER list \<Rightarrow> bool \<Rightarrow> nat option \<Rightarrow> error + import_line list"
where
  "thunk_lines img sectHead is64 il =
     (case il of None \<Rightarrow> Inr [Cant_grab_thunk_data]
      | Some p \<Rightarrow>
          if is64 then dump_image_thunk_data64 img sectHead p
          else dump_image_thunk_data32 img sectHead p 0)"

text \<open>
  The body of the loop for the descriptor at \<open>importDesc\<close>, lines 772 to 794. An
  \<open>IMAGE_IMPORT_DESCRIPTOR\<close> is five 32-bit fields: \<open>OriginalFirstThunk\<close>,
  \<open>TimeDateStamp\<close>, \<open>ForwarderChain\<close>, \<open>Name\<close> and \<open>FirstThunk\<close>. \<open>is64\<close> says that the
  magic of the optional header is \<open>IMAGE_NT_OPTIONAL_HDR64_MAGIC\<close>.
\<close>

definition import_descriptor ::
  "image \<Rightarrow> IMAGE_SECTION_HEADER list \<Rightarrow> bool \<Rightarrow> nat \<Rightarrow> error + import_line list"
where
  "import_descriptor img sectHead is64 importDesc =
     (case rd32 img (importDesc + 12) of Inl e \<Rightarrow> Inl e | Inr name_rva \<Rightarrow>
     (case (case RVA (PRD (length img)) sectHead (ucast name_rva) 4 of None \<Rightarrow> Inr None
            | Some p \<Rightarrow> (case cstring img p of Inl e \<Rightarrow> Inl e | Inr s \<Rightarrow> Inr (Some s))) of
        Inl e \<Rightarrow> Inl e | Inr name \<Rightarrow>
     (case rd32 img importDesc of Inl e \<Rightarrow> Inl e | Inr OriginalFirstThunk \<Rightarrow>
     (case rd32 img (importDesc + 4) of Inl e \<Rightarrow> Inl e | Inr TimeDateStamp \<Rightarrow>
     (case rd32 img (importDesc + 8) of Inl e \<Rightarrow> Inl e | Inr ForwarderChain \<Rightarrow>
     (case rd32 img (importDesc + 16) of Inl e \<Rightarrow> Inl e | Inr FirstThunk \<Rightarrow>
     (case thunk_lines img sectHead is64
             (import_thunks img sectHead OriginalFirstThunk FirstThunk) of
        Inl e \<Rightarrow> Inl e
      | Inr thunks \<Rightarrow>
          Inr (Import_descriptor importDesc name OriginalFirstThunk TimeDateStamp
                 ForwarderChain FirstThunk # thunks))))))))"

text \<open>
  The loop \<open>for (;;)\<close> with its exit
  \<open>if (!importDesc->Name || !importDesc->FirstThunk) break\<close>.
\<close>

function import_descriptors ::
  "image \<Rightarrow> IMAGE_SECTION_HEADER list \<Rightarrow> bool \<Rightarrow> nat \<Rightarrow> error + import_line list"
where
  "import_descriptors img sectHead is64 importDesc =
     (case rd32 img (importDesc + 12) of Inl e \<Rightarrow> Inl e
      | Inr name_rva \<Rightarrow>
          if name_rva = 0 then Inr []
          else (case rd32 img (importDesc + 16) of Inl e \<Rightarrow> Inl e
                | Inr FirstThunk \<Rightarrow>
                    if FirstThunk = 0 then Inr []
                    else (case import_descriptor img sectHead is64 importDesc of
                            Inl e \<Rightarrow> Inl e
                          | Inr lines \<Rightarrow>
                              (case import_descriptors img sectHead is64 (importDesc + 20) of
                                 Inl e \<Rightarrow> Inl e
                               | Inr rest \<Rightarrow> Inr (lines @ rest)))))"
  by pat_completeness auto
termination
  by (relation "measure (\<lambda>(img, sectHead, is64, importDesc). length img - importDesc)")
     (auto simp add: rd32_def split: if_splits)

declare import_descriptors.simps [simp del]

definition dump_dir_imported_functions ::
  "image \<Rightarrow> IMAGE_SECTION_HEADER list \<Rightarrow> bool \<Rightarrow> nat option \<Rightarrow> DWORD \<Rightarrow> error + import_line list"
where
  "dump_dir_imported_functions img sectHead is64 importDesc directorySize =
     (case importDesc of None \<Rightarrow> Inr []
      | Some p \<Rightarrow>
          (case import_descriptors img sectHead is64 p of Inl e \<Rightarrow> Inl e
           | Inr lines \<Rightarrow> Inr (Import_table_size directorySize # lines)))"


section \<open>Properties of the import dumper\<close>

lemma rd32_Inr: "rd32 img p = Inr w \<Longrightarrow> p + 4 \<le> length img \<and> w = le32 img p"
  by (auto simp add: rd32_def split: if_splits)

lemma import_descriptor_Inr:
  assumes "import_descriptor img sectHead is64 p = Inr lines"
  shows "p + 20 \<le> length img \<and>
         (\<exists>name. lines = Import_descriptor p name (le32 img p) (le32 img (p + 4))
                           (le32 img (p + 8)) (le32 img (p + 16)) # tl lines) \<and>
         thunk_lines img sectHead is64
           (import_thunks img sectHead (le32 img p) (le32 img (p + 16))) = Inr (tl lines)"
proof -
  from assms obtain name oft tds fc ft thunks where
    reads: "rd32 img p = Inr oft" "rd32 img (p + 4) = Inr tds" "rd32 img (p + 8) = Inr fc"
      "rd32 img (p + 16) = Inr ft"
    and thunks: "thunk_lines img sectHead is64 (import_thunks img sectHead oft ft) = Inr thunks"
    and lines: "lines = Import_descriptor p name oft tds fc ft # thunks"
    unfolding import_descriptor_def
    by (auto split: sum.splits)
  from reads have "p + 20 \<le> length img" "oft = le32 img p" "tds = le32 img (p + 4)"
    "fc = le32 img (p + 8)" "ft = le32 img (p + 16)"
    using rd32_Inr by fastforce+
  with thunks lines show ?thesis by auto
qed

lemma import_descriptors_stop:
  assumes "p + 16 \<le> length img"
    and "le32 img (p + 12) = 0 \<or> (p + 20 \<le> length img \<and> le32 img (p + 16) = 0)"
  shows "import_descriptors img sectHead is64 p = Inr []"
  using assms by (subst import_descriptors.simps) (auto simp add: rd32_def)

lemma import_descriptors_step:
  assumes "le32 img (p + 12) \<noteq> 0" "le32 img (p + 16) \<noteq> 0"
    and "import_descriptor img sectHead is64 p = Inr lines"
  shows "import_descriptors img sectHead is64 p =
           (case import_descriptors img sectHead is64 (p + 20) of Inl e \<Rightarrow> Inl e
            | Inr rest \<Rightarrow> Inr (lines @ rest))"
proof -
  have "p + 20 \<le> length img"
    using import_descriptor_Inr [OF assms(3)] by simp
  then have "rd32 img (p + 12) = Inr (le32 img (p + 12))" "rd32 img (p + 16) = Inr (le32 img (p + 16))"
    by (simp_all add: rd32_def)
  with assms show ?thesis
    by (subst import_descriptors.simps) simp
qed

lemma import_descriptors_run:
  "(\<And>k. k < n \<Longrightarrow> le32 img (p + 20 * k + 12) \<noteq> 0 \<and> le32 img (p + 20 * k + 16) \<noteq> 0 \<and>
                  import_descriptor img sectHead is64 (p + 20 * k) = Inr (lines k))
   \<Longrightarrow> p + 20 * n + 16 \<le> length img
   \<Longrightarrow> le32 img (p + 20 * n + 12) = 0 \<or>
       (p + 20 * n + 20 \<le> length img \<and> le32 img (p + 20 * n + 16) = 0)
   \<Longrightarrow> import_descriptors img sectHead is64 p = Inr (concat (map lines [0..<n]))"
proof (induction n arbitrary: p lines)
  case 0
  then show ?case
    using import_descriptors_stop [of p img sectHead is64] by simp
next
  case (Suc n)
  have first: "le32 img (p + 12) \<noteq> 0" "le32 img (p + 16) \<noteq> 0"
    "import_descriptor img sectHead is64 p = Inr (lines 0)"
    using Suc.prems(1) [of 0] by simp_all
  have rest: "import_descriptors img sectHead is64 (p + 20)
      = Inr (concat (map (\<lambda>k. lines (Suc k)) [0..<n]))"
  proof (rule Suc.IH)
    fix k assume "k < n"
    then show "le32 img (p + 20 + 20 * k + 12) \<noteq> 0 \<and> le32 img (p + 20 + 20 * k + 16) \<noteq> 0 \<and>
        import_descriptor img sectHead is64 (p + 20 + 20 * k) = Inr (lines (Suc k))"
      using Suc.prems(1) [of "Suc k"] by (simp add: add.assoc)
  next
    show "p + 20 + 20 * n + 16 \<le> length img"
      using Suc.prems(2) by simp
    show "le32 img (p + 20 + 20 * n + 12) = 0 \<or>
        (p + 20 + 20 * n + 20 \<le> length img \<and> le32 img (p + 20 + 20 * n + 16) = 0)"
      using Suc.prems(3) by (simp add: add.assoc)
  qed
  have "concat (map lines [0..<Suc n]) = lines 0 @ concat (map (\<lambda>k. lines (Suc k)) [0..<n])"
    by (simp add: upt_conv_Cons map_Suc_upt [symmetric] comp_def del: upt_Suc)
  with import_descriptors_step [OF first] rest show ?case by simp
qed



text \<open>
  Claim C3, as amended. The loop stops at the first descriptor whose \<open>Name\<close> or whose
  \<open>FirstThunk\<close> is zero, of which an all-zero descriptor is one case. When the \<open>n\<close>
  descriptors from \<open>p\<close> have both fields non-zero and descriptor \<open>n\<close> has one of them zero,
  the output is the size line and then, for each of the \<open>n\<close> descriptors in order, its
  lines (the header with the module name, then its thunks): every descriptor before the
  stop is processed, and nothing after it.
\<close>

theorem import_loop_stops_at_zero_name_or_first_thunk:
  assumes "\<forall>k<n. le32 img (p + 20 * k + 12) \<noteq> 0 \<and> le32 img (p + 20 * k + 16) \<noteq> 0 \<and>
                  import_descriptor img sectHead is64 (p + 20 * k) = Inr (lines k)"
    and "p + 20 * n + 16 \<le> length img"
    and "le32 img (p + 20 * n + 12) = 0 \<or>
         (p + 20 * n + 20 \<le> length img \<and> le32 img (p + 20 * n + 16) = 0)"
  shows "dump_dir_imported_functions img sectHead is64 (Some p) directorySize
           = Inr (Import_table_size directorySize # concat (map lines [0..<n]))"
proof -
  have "import_descriptors img sectHead is64 p = Inr (concat (map lines [0..<n]))"
    using assms by (intro import_descriptors_run) simp_all
  then show ?thesis
    by (simp add: dump_dir_imported_functions_def)
qed

text \<open>
  An image of 76 bytes, one section mapping addresses from \<open>0x1000\<close> to the file. The
  descriptor at 0 has \<open>OriginalFirstThunk = 0x1030\<close>, \<open>Name = 0x1040\<close> (\<open>a.dll\<close>) and
  \<open>FirstThunk = 0x1038\<close>; the descriptor at 20 is all zero. At offset \<open>0x30\<close> a thunk by
  ordinal 5, at \<open>0x38\<close> a thunk by name with hint 1 and name \<open>f\<close>.
\<close>

definition import_example :: image where
  "import_example =
     [0x30, 0x10, 0x00, 0x00, 0x00, 0x00, 0x00, 0x00, 0x00, 0x00, 0x00, 0x00, 0x40, 0x10, 0x00, 0x00,
      0x38, 0x10, 0x00, 0x00, 0x00, 0x00, 0x00, 0x00, 0x00, 0x00, 0x00, 0x00, 0x00, 0x00, 0x00, 0x00,
      0x00, 0x00, 0x00, 0x00, 0x00, 0x00, 0x00, 0x00, 0x00, 0x00, 0x00, 0x00, 0x00, 0x00, 0x00, 0x00,
      0x05, 0x00, 0x00, 0x80, 0x00, 0x00, 0x00, 0x00, 0x48, 0x10, 0x00, 0x00, 0x00, 0x00, 0x00, 0x00,
      0x61, 0x2e, 0x64, 0x6c, 0x6c, 0x00, 0x00, 0x00, 0x01, 0x00, 0x66, 0x00]"


definition import_sections :: "IMAGE_SECTION_HEADER list" where
  "import_sections =
     [\<lparr>VirtualAddress = 0x1000, SizeOfRawData = 0x100, PointerToRawData = 0\<rparr>]"

lemma import_sections_RVA:
  "RVA (PRD 76) import_sections 0x1030 4 = Some 48"
  "RVA (PRD 76) import_sections 0x1038 4 = Some 56"
  "RVA (PRD 76) import_sections 0x1040 4 = Some 64"
  "RVA (PRD 76) import_sections 0x1048 4 = Some 72"
  by (simp_all add: RVA_def import_sections_def PRD_def)


lemma import_example_length: "length import_example = 76"
  by (simp add: import_example_def)

lemma import_example_fields:
  "le32 import_example 0 = 0x1030" "le32 import_example 4 = 0" "le32 import_example 8 = 0"
  "le32 import_example 12 = 0x1040" "le32 import_example 16 = 0x1038"
  "le32 import_example 32 = 0"
  "le32 import_example 48 = 0x80000005" "le32 import_example 52 = 0"
  by (simp_all add: le32_def le16_def import_example_def)

lemma import_example_name: "cstring import_example 64 = Inr [0x61, 0x2e, 0x64, 0x6c, 0x6c]"
proof -
  have "cstring import_example 69 = Inr []"
    by (subst cstring.simps) (simp add: rd8_def import_example_def)
  then have "cstring import_example 68 = Inr [0x6c]"
    by (subst cstring.simps) (simp add: rd8_def import_example_def)
  then have "cstring import_example 67 = Inr [0x6c, 0x6c]"
    by (subst cstring.simps) (simp add: rd8_def import_example_def)
  then have "cstring import_example 66 = Inr [0x64, 0x6c, 0x6c]"
    by (subst cstring.simps) (simp add: rd8_def import_example_def)
  then have "cstring import_example 65 = Inr [0x2e, 0x64, 0x6c, 0x6c]"
    by (subst cstring.simps) (simp add: rd8_def import_example_def)
  then show ?thesis
    by (subst cstring.simps) (simp add: rd8_def import_example_def)
qed

lemma import_example_thunks:
  "dump_image_thunk_data32 import_example import_sections 48 0 = Inr [By_ordinal 5]"
proof -
  have "dump_image_thunk_data32 import_example import_sections 52 0 = Inr []"
    by (subst dump_image_thunk_data32.simps)
       (simp add: rd32_def import_example_length import_example_fields)
  then show ?thesis
    by (subst dump_image_thunk_data32.simps)
       (simp add: rd32_def import_example_length import_example_fields)
qed

lemma import_example_descriptor:
  "import_descriptor import_example import_sections False 0
     = Inr [Import_descriptor 0 (Some [0x61, 0x2e, 0x64, 0x6c, 0x6c]) 0x1030 0 0 0x1038,
            By_ordinal 5]"
  by (simp add: import_descriptor_def rd32_def import_example_length import_example_fields
      import_sections_RVA import_example_name import_thunks_def thunk_lines_def
      import_example_thunks)









theorem import_loop_stops_at_zero_name_or_first_thunk_witness:
  "dump_dir_imported_functions import_example import_sections False (Some 0) 40
     = Inr [Import_table_size 40,
            Import_descriptor 0 (Some [0x61, 0x2e, 0x64, 0x6c, 0x6c]) 0x1030 0 0 0x1038,
            By_ordinal 5]"
  using import_loop_stops_at_zero_name_or_first_thunk
    [of 1 import_example 0 import_sections False
       "\<lambda>k. [Import_descriptor 0 (Some [0x61, 0x2e, 0x64, 0x6c, 0x6c]) 0x1030 0 0 0x1038,
             By_ordinal 5]" 40]
  by (simp add: import_example_descriptor import_example_length import_example_fields)

text \<open>
  The claim as stated fails in this image of 96 bytes. The descriptor at 0 is not all
  zero (\<open>OriginalFirstThunk\<close> and \<open>FirstThunk\<close> are \<open>0x1040\<close>) but its \<open>Name\<close> is zero: the
  loop stops there. The descriptor at 20, which would be dumped as module \<open>a.dll\<close> with
  ordinal 7, and which is before the all-zero descriptor at 40, is not processed.
\<close>

definition nameless_descriptor :: image where
  "nameless_descriptor =
     [0x40, 0x10, 0x00, 0x00, 0x00, 0x00, 0x00, 0x00, 0x00, 0x00, 0x00, 0x00, 0x00, 0x00, 0x00, 0x00,
      0x40, 0x10, 0x00, 0x00, 0x40, 0x10, 0x00, 0x00, 0x00, 0x00, 0x00, 0x00, 0x00, 0x00, 0x00, 0x00,
      0x50, 0x10, 0x00, 0x00, 0x48, 0x10, 0x00, 0x00, 0x00, 0x00, 0x00, 0x00, 0x00, 0x00, 0x00, 0x00,
      0x00, 0x00, 0x00, 0x00, 0x00, 0x00, 0x00, 0x00, 0x00, 0x00, 0x00, 0x00, 0x00, 0x00, 0x00, 0x00,
      0x05, 0x00, 0x00, 0x80, 0x00, 0x00, 0x00, 0x00, 0x07, 0x00, 0x00, 0x80, 0x00, 0x00, 0x00, 0x00,
      0x61, 0x2e, 0x64, 0x6c, 0x6c, 0x00, 0x00, 0x00, 0x00, 0x00, 0x00, 0x00, 0x00, 0x00, 0x00, 0x00]"

lemma nameless_descriptor_length: "length nameless_descriptor = 96"
  by (simp add: nameless_descriptor_def)

lemma nameless_descriptor_fields:
  "le32 nameless_descriptor 0 = 0x1040" "le32 nameless_descriptor 12 = 0"
  "le32 nameless_descriptor 16 = 0x1040"
  "le32 nameless_descriptor 20 = 0x1040" "le32 nameless_descriptor 24 = 0"
  "le32 nameless_descriptor 28 = 0" "le32 nameless_descriptor 32 = 0x1050"
  "le32 nameless_descriptor 36 = 0x1048"
  "le32 nameless_descriptor 40 = 0" "le32 nameless_descriptor 44 = 0"
  "le32 nameless_descriptor 48 = 0" "le32 nameless_descriptor 52 = 0"
  "le32 nameless_descriptor 56 = 0"
  by (simp_all add: le32_def le16_def nameless_descriptor_def)

theorem import_loop_stops_at_descriptor_without_name:
  "le32 nameless_descriptor 0 = 0x1040 \<and> le32 nameless_descriptor 16 = 0x1040 \<and>
   le32 nameless_descriptor 32 = 0x1050 \<and> le32 nameless_descriptor 36 = 0x1048 \<and>
   map (le32 nameless_descriptor) [40, 44, 48, 52, 56] = [0, 0, 0, 0, 0] \<and>
   dump_dir_imported_functions nameless_descriptor import_sections False (Some 0) 60
     = Inr [Import_table_size 60]"
proof -
  have "import_descriptors nameless_descriptor import_sections False 0 = Inr []"
    by (subst import_descriptors.simps)
       (simp add: rd32_def nameless_descriptor_length nameless_descriptor_fields)
  then show ?thesis
    by (simp add: dump_dir_imported_functions_def nameless_descriptor_fields)
qed

end
